theory Spec2Isabelle
  imports
    Main
    "HOL-Library.Sublist"
    "HOL-Library.Char_ord"
    "HOL-Library.List_Lexorder"
begin

unbundle bit_operations_syntax

section \<open>Package gsm: a client of the Secret Manager REST API\<close>

text \<open>
  The development embeds \<^verbatim>\<open>secret.go\<close>: the two metadata lookups
  (\<^verbatim>\<open>getProjectID\<close>, \<^verbatim>\<open>getAccessToken\<close>), and the four exported
  operations \<^verbatim>\<open>Fetch\<close>, \<^verbatim>\<open>FetchFromProject\<close>, \<^verbatim>\<open>Store\<close> and
  \<^verbatim>\<open>StoreInProject\<close>. Go strings are byte sequences, so they are \<^typ>\<open>string\<close>
  here (a list of 8-bit characters). The functions of the Go standard library that the
  package calls are modelled first; the package itself follows in the section on the
  operations.
\<close>

subsection \<open>Package constants\<close>

definition maxRetries :: nat where
  "maxRetries = 3"

definition maxBodySize :: nat where
  "maxBodySize = 10 * 1024 * 1024"

subsection \<open>Standard library: strconv and strings\<close>

text \<open>The verb \<^verbatim>\<open>%d\<close> of \<^verbatim>\<open>fmt\<close> on an \<^verbatim>\<open>int\<close>: decimal digits, with a minus sign.\<close>

fun digits :: "nat \<Rightarrow> string" where
  "digits n =
     (if n < 10 then [char_of (48 + n)]
      else digits (n div 10) @ [char_of (48 + n mod 10)])"

declare digits.simps [simp del]

definition itoa :: "int \<Rightarrow> string" where
  "itoa i = (if i < 0 then CHR ''-'' # digits (nat (- i)) else digits (nat i))"

text \<open>\<^verbatim>\<open>strings.Contains(s, substr)\<close>.\<close>

fun strings_Contains :: "string \<Rightarrow> string \<Rightarrow> bool" where
  "strings_Contains [] substr = (substr = [])"
| "strings_Contains (c # cs) substr = (prefix substr (c # cs) \<or> strings_Contains cs substr)"

text \<open>
  \<^verbatim>\<open>strings.TrimSpace\<close> removes leading and trailing white space as Unicode defines it.
  On the bytes of the string these are the UTF-8 encodings of the code points for which
  \<^verbatim>\<open>unicode.IsSpace\<close> holds: tab, line feed, vertical tab, form feed, carriage return,
  space, U+0085, U+00A0, U+1680, U+2000 to U+200A, U+2028, U+2029, U+202F, U+205F and
  U+3000.
\<close>

definition space_seqs :: "string list" where
  "space_seqs =
     [[CHR 0x09], [CHR 0x0A], [CHR 0x0B], [CHR 0x0C], [CHR 0x0D], [CHR 0x20],
      [CHR 0xC2, CHR 0x85], [CHR 0xC2, CHR 0xA0],
      [CHR 0xE1, CHR 0x9A, CHR 0x80],
      [CHR 0xE2, CHR 0x80, CHR 0x80], [CHR 0xE2, CHR 0x80, CHR 0x81],
      [CHR 0xE2, CHR 0x80, CHR 0x82], [CHR 0xE2, CHR 0x80, CHR 0x83],
      [CHR 0xE2, CHR 0x80, CHR 0x84], [CHR 0xE2, CHR 0x80, CHR 0x85],
      [CHR 0xE2, CHR 0x80, CHR 0x86], [CHR 0xE2, CHR 0x80, CHR 0x87],
      [CHR 0xE2, CHR 0x80, CHR 0x88], [CHR 0xE2, CHR 0x80, CHR 0x89],
      [CHR 0xE2, CHR 0x80, CHR 0x8A],
      [CHR 0xE2, CHR 0x80, CHR 0xA8], [CHR 0xE2, CHR 0x80, CHR 0xA9],
      [CHR 0xE2, CHR 0x80, CHR 0xAF], [CHR 0xE2, CHR 0x81, CHR 0x9F],
      [CHR 0xE3, CHR 0x80, CHR 0x80]]"

definition leading_space :: "string \<Rightarrow> nat" where
  "leading_space s = (case find (\<lambda>q. prefix q s) space_seqs of None \<Rightarrow> 0 | Some q \<Rightarrow> length q)"

definition trailing_space :: "string \<Rightarrow> nat" where
  "trailing_space s = (case find (\<lambda>q. suffix q s) space_seqs of None \<Rightarrow> 0 | Some q \<Rightarrow> length q)"

function TrimLeft :: "string \<Rightarrow> string" where
  "TrimLeft s =
     (if 0 < leading_space s \<and> leading_space s \<le> length s
      then TrimLeft (drop (leading_space s) s) else s)"
  by pat_completeness auto
termination
  by (relation "measure length") auto

declare TrimLeft.simps [simp del]

function TrimRight :: "string \<Rightarrow> string" where
  "TrimRight s =
     (if 0 < trailing_space s \<and> trailing_space s \<le> length s
      then TrimRight (take (length s - trailing_space s) s) else s)"
  by pat_completeness auto
termination
  by (relation "measure length") auto

declare TrimRight.simps [simp del]

definition strings_TrimSpace :: "string \<Rightarrow> string" where
  "strings_TrimSpace s = TrimRight (TrimLeft s)"

subsection \<open>Error values\<close>

text \<open>
  Go errors are values with a message. The constructors keep apart where an error comes
  from: the context (\<^verbatim>\<open>ctx.Err()\<close>), the transport (\<^verbatim>\<open>httpClient.Do\<close>), reading a
  body, package \<^verbatim>\<open>io\<close>, \<^verbatim>\<open>encoding/json\<close>, \<^verbatim>\<open>encoding/base64\<close>, \<^verbatim>\<open>errors.New\<close>, and
  \<^verbatim>\<open>fmt.Errorf\<close> with and without the wrapping verb \<^verbatim>\<open>%w\<close>. \<open>Wrap p c\<close> is
  \<^verbatim>\<open>fmt.Errorf(p + ": %w", c)\<close>; the cause is optional because \<^verbatim>\<open>lastErr\<close> is a
  variable that starts as \<^verbatim>\<open>nil\<close>.
\<close>

datatype ctx_err = Canceled | DeadlineExceeded

datatype error =
    CtxErr ctx_err
  | TransportErr string
  | ReadErr string
  | io_EOF
  | io_ErrUnexpectedEOF
  | SyntaxError string
  | UnmarshalTypeError string
  | CorruptInputError nat
  | New string
  | Errorf string
  | Wrap string "error option"

text \<open>
  The method \<^verbatim>\<open>Error()\<close>. The texts of transport and read errors come from the
  environment. The package reads the text of one error only, \<^verbatim>\<open>createErr\<close> in
  \<^verbatim>\<open>StoreInProject\<close>, which is a transport error or a value of \<^verbatim>\<open>fmt.Errorf\<close>.
\<close>

fun Error :: "error \<Rightarrow> string" where
  "Error (CtxErr Canceled) = ''context canceled''"
| "Error (CtxErr DeadlineExceeded) = ''context deadline exceeded''"
| "Error (TransportErr m) = m"
| "Error (ReadErr m) = m"
| "Error io_EOF = ''EOF''"
| "Error io_ErrUnexpectedEOF = ''unexpected EOF''"
| "Error (SyntaxError m) = m"
| "Error (UnmarshalTypeError m) = m"
| "Error (CorruptInputError n) = ''illegal base64 data at input byte '' @ digits n"
| "Error (New m) = m"
| "Error (Errorf m) = m"
| "Error (Wrap p None) = p @ '': %!w(<nil>)''"
| "Error (Wrap p (Some e)) = p @ '': '' @ Error e"

subsection \<open>Standard library: regexp\<close>

text \<open>
  The two patterns of the package use character classes, concatenation and bounded
  repetition, between \<^verbatim>\<open>^\<close> and \<^verbatim>\<open>$\<close>. Without the multi-line flag Go's \<^verbatim>\<open>$\<close>
  matches at the end of the text only, so \<^verbatim>\<open>MatchString\<close> on such a pattern asks
  whether the whole text matches. \<open>run r s\<close> lists what is left of \<open>s\<close> after each
  way of matching \<open>r\<close> at its start.
\<close>

datatype regex =
    Class "(char \<times> char) list"
  | Concat regex regex
  | Repeat regex nat nat

definition in_class :: "(char \<times> char) list \<Rightarrow> char \<Rightarrow> bool" where
  "in_class rs c = list_ex (\<lambda>(lo, hi). (of_char lo :: nat) \<le> of_char c \<and> (of_char c :: nat) \<le> of_char hi) rs"

fun weight :: "regex \<Rightarrow> nat" where
  "weight (Class rs) = 0"
| "weight (Concat r1 r2) = Suc (weight r1 + weight r2)"
| "weight (Repeat r lo hi) = Suc (weight r + hi)"

function run :: "regex \<Rightarrow> string \<Rightarrow> string list" where
  "run (Class rs) s = (case s of [] \<Rightarrow> [] | c # cs \<Rightarrow> if in_class rs c then [cs] else [])"
| "run (Concat r1 r2) s = concat (map (run r2) (run r1 s))"
| "run (Repeat r lo hi) s =
     (if lo = 0 then [s] else []) @
     (if hi = 0 then [] else concat (map (run (Repeat r (lo - 1) (hi - 1))) (run r s)))"
  by pat_completeness auto
termination
  by (relation "measure (\<lambda>(r, s). weight r)") auto

definition MatchString :: "regex \<Rightarrow> string \<Rightarrow> bool" where
  "MatchString r s = ([] \<in> set (run r s))"

text \<open>\<^verbatim>\<open>^[a-z][a-z0-9-]{4,28}[a-z0-9]$\<close> and \<^verbatim>\<open>^[a-zA-Z0-9_-]{1,255}$\<close>.\<close>

definition projectIDRegex :: regex where
  "projectIDRegex =
     Concat (Class [(CHR ''a'', CHR ''z'')])
       (Concat (Repeat (Class [(CHR ''a'', CHR ''z''), (CHR ''0'', CHR ''9''), (CHR ''-'', CHR ''-'')]) 4 28)
          (Class [(CHR ''a'', CHR ''z''), (CHR ''0'', CHR ''9'')]))"

definition secretNameRegex :: regex where
  "secretNameRegex =
     Repeat (Class [(CHR ''a'', CHR ''z''), (CHR ''A'', CHR ''Z''), (CHR ''0'', CHR ''9''),
                    (CHR ''_'', CHR ''_''), (CHR ''-'', CHR ''-'')]) 1 255"

subsection \<open>Standard library: encoding/base64\<close>

text \<open>
  \<^verbatim>\<open>base64.StdEncoding\<close>: the standard alphabet, padding with \<^verbatim>\<open>=\<close>, not strict.
  \<^verbatim>\<open>Encode\<close> packs three bytes into a 24-bit value and emits its four 6-bit groups;
  one or two remaining bytes give two or three characters and padding.
\<close>

definition encodeStd :: string where
  "encodeStd = ''ABCDEFGHIJKLMNOPQRSTUVWXYZabcdefghijklmnopqrstuvwxyz0123456789+/''"

definition encode :: "nat \<Rightarrow> char" where
  "encode v = encodeStd ! v"

fun EncodeToString :: "string \<Rightarrow> string" where
  "EncodeToString [] = []"
| "EncodeToString [a] =
     (let val = push_bit 16 (of_char a :: nat)
      in [encode (drop_bit 18 val AND 0x3F), encode (drop_bit 12 val AND 0x3F), CHR ''='', CHR ''=''])"
| "EncodeToString [a, b] =
     (let val = push_bit 16 (of_char a :: nat) OR push_bit 8 (of_char b)
      in [encode (drop_bit 18 val AND 0x3F), encode (drop_bit 12 val AND 0x3F),
          encode (drop_bit 6 val AND 0x3F), CHR ''=''])"
| "EncodeToString (a # b # c # src) =
     (let val = push_bit 16 (of_char a :: nat) OR push_bit 8 (of_char b) OR of_char c
      in [encode (drop_bit 18 val AND 0x3F), encode (drop_bit 12 val AND 0x3F),
          encode (drop_bit 6 val AND 0x3F), encode (val AND 0x3F)] @ EncodeToString src)"

text \<open>
  \<^verbatim>\<open>decodeMap\<close> is built from the alphabet: the index of a character of the alphabet,
  nothing (\<^verbatim>\<open>0xff\<close> in Go) for any other byte.
\<close>

definition decodeMap :: "char \<Rightarrow> nat option" where
  "decodeMap c = map_of (zip encodeStd [0..<64]) c"

text \<open>
  The bytes of one quantum: \<open>dbuf\<close> holds the 6-bit values read so far (two, three or
  four of them; the rest of Go's array is zero), and one byte less than that comes out.
\<close>

definition quantum_bytes :: "nat list \<Rightarrow> string" where
  "quantum_bytes dbuf =
     (let d = (\<lambda>i. if i < length dbuf then dbuf ! i else 0);
          val = push_bit 18 (d 0) OR push_bit 12 (d 1) OR push_bit 6 (d 2) OR d 3
      in take (length dbuf - 1) [char_of (drop_bit 16 val), char_of (drop_bit 8 val), char_of val])"

fun skip_newlines :: "nat \<Rightarrow> string \<Rightarrow> nat \<times> string" where
  "skip_newlines si [] = (si, [])"
| "skip_newlines si (c # cs) =
     (if c = CHR 0x0A \<or> c = CHR 0x0D then skip_newlines (Suc si) cs else (si, c # cs))"

text \<open>
  A padding character has been read and \<open>si\<close> is the index after it. With fewer than
  two values in the quantum the padding is misplaced; with two a second \<^verbatim>\<open>=\<close> must
  follow; after the padding only line ends may follow.
\<close>

definition padding :: "nat list \<Rightarrow> nat \<Rightarrow> string \<Rightarrow> error + string" where
  "padding dbuf si src =
     (if length dbuf < 2 then Inl (CorruptInputError (si - 1))
      else
        (case (if length dbuf = 2
               then (case skip_newlines si src of
                       (si1, []) \<Rightarrow> Inl (CorruptInputError si1)
                     | (si1, c # cs) \<Rightarrow>
                         if c \<noteq> CHR ''='' then Inl (CorruptInputError (si1 - 1))
                         else Inr (Suc si1, cs))
               else Inr (si, src)) of
           Inl e \<Rightarrow> Inl e
         | Inr (si2, src2) \<Rightarrow>
             (case skip_newlines si2 src2 of
                (si3, []) \<Rightarrow> Inr (quantum_bytes dbuf)
              | (si3, c # cs) \<Rightarrow> Inl (CorruptInputError si3))))"

text \<open>
  \<^verbatim>\<open>Decode\<close> calls \<^verbatim>\<open>decodeQuantum\<close> until the input is used up; both loops are one
  recursion over the input here. \<open>si\<close> is the index of the next byte and \<open>dbuf\<close> the
  values of the quantum being read. Line ends are skipped; any other byte outside the
  alphabet is an error, and so is an input that ends inside a quantum.
\<close>

fun decode :: "nat list \<Rightarrow> nat \<Rightarrow> string \<Rightarrow> error + string" where
  "decode dbuf si [] =
     (if dbuf = [] then Inr [] else Inl (CorruptInputError (si - length dbuf)))"
| "decode dbuf si (c # cs) =
     (case decodeMap c of
        Some out \<Rightarrow>
          (if length dbuf = 3
           then (case decode [] (Suc si) cs of
                   Inl e \<Rightarrow> Inl e
                 | Inr r \<Rightarrow> Inr (quantum_bytes (dbuf @ [out]) @ r))
           else decode (dbuf @ [out]) (Suc si) cs)
      | None \<Rightarrow>
          if c = CHR 0x0A \<or> c = CHR 0x0D then decode dbuf (Suc si) cs
          else if c \<noteq> CHR ''='' then Inl (CorruptInputError si)
          else padding dbuf (Suc si) cs)"

definition DecodeString :: "string \<Rightarrow> error + string" where
  "DecodeString s = decode [] 0 s"

subsection \<open>Standard library: unicode/utf8\<close>

definition between :: "char \<Rightarrow> nat \<Rightarrow> nat \<Rightarrow> bool" where
  "between c lo hi = (lo \<le> of_char c \<and> (of_char c :: nat) \<le> hi)"

text \<open>
  The number of bytes of the well-formed UTF-8 sequence at the head of a string, and 0
  where there is none (\<^verbatim>\<open>utf8.DecodeRune\<close> answers \<^verbatim>\<open>RuneError\<close> with width 1 there).
\<close>

fun utf8_width :: "string \<Rightarrow> nat" where
  "utf8_width [] = 0"
| "utf8_width (c # cs) =
     (if between c 0x00 0x7F then 1
      else if between c 0xC2 0xDF then
        (case cs of c1 # _ \<Rightarrow> if between c1 0x80 0xBF then 2 else 0 | _ \<Rightarrow> 0)
      else if between c 0xE0 0xEF then
        (case cs of
           c1 # c2 # _ \<Rightarrow>
             if between c1 (if c = CHR 0xE0 then 0xA0 else 0x80) (if c = CHR 0xED then 0x9F else 0xBF)
                \<and> between c2 0x80 0xBF
             then 3 else 0
         | _ \<Rightarrow> 0)
      else if between c 0xF0 0xF4 then
        (case cs of
           c1 # c2 # c3 # _ \<Rightarrow>
             if between c1 (if c = CHR 0xF0 then 0x90 else 0x80) (if c = CHR 0xF4 then 0x8F else 0xBF)
                \<and> between c2 0x80 0xBF \<and> between c3 0x80 0xBF
             then 4 else 0
         | _ \<Rightarrow> 0)
      else 0)"

definition replacement :: string where
  "replacement = [CHR 0xEF, CHR 0xBF, CHR 0xBD]"

text \<open>\<^verbatim>\<open>utf8.EncodeRune\<close>; a surrogate or a value beyond U+10FFFF becomes U+FFFD.\<close>

definition EncodeRune :: "nat \<Rightarrow> string" where
  "EncodeRune r =
     (if r < 0x80 then [char_of r]
      else if r < 0x800 then [char_of (0xC0 + r div 64), char_of (0x80 + r mod 64)]
      else if (0xD800 \<le> r \<and> r < 0xE000) \<or> 0x10FFFF < r then replacement
      else if r < 0x10000 then
        [char_of (0xE0 + r div 4096), char_of (0x80 + r div 64 mod 64), char_of (0x80 + r mod 64)]
      else
        [char_of (0xF0 + r div 262144), char_of (0x80 + r div 4096 mod 64),
         char_of (0x80 + r div 64 mod 64), char_of (0x80 + r mod 64)])"

subsection \<open>Standard library: encoding/json, reading\<close>

text \<open>
  A JSON text is read into a tree. A number keeps its text: the package decodes into
  string fields only, where a number is a type error whatever its value.
\<close>

datatype json =
    JNull
  | JBool bool
  | JNumber string
  | JString string
  | JArray "json list"
  | JObject "(string \<times> json) list"

text \<open>
  Reading fails in two ways: the input ends inside a value, or a byte cannot continue
  the value.
\<close>

datatype json_fail = UnexpectedEnd | Invalid

definition is_ws :: "char \<Rightarrow> bool" where
  "is_ws c = (c = CHR 0x20 \<or> c = CHR 0x09 \<or> c = CHR 0x0D \<or> c = CHR 0x0A)"

definition skip_ws :: "string \<Rightarrow> string" where
  "skip_ws s = dropWhile is_ws s"

definition is_digit :: "char \<Rightarrow> bool" where
  "is_digit c = between c 0x30 0x39"

definition hexval :: "char \<Rightarrow> nat option" where
  "hexval c =
     (if between c 0x30 0x39 then Some (of_char c - 0x30)
      else if between c 0x61 0x66 then Some (of_char c - 0x57)
      else if between c 0x41 0x46 then Some (of_char c - 0x37)
      else None)"

fun hex4 :: "string \<Rightarrow> nat option" where
  "hex4 [a, b, c, d] =
     (case (hexval a, hexval b, hexval c, hexval d) of
        (Some w, Some x, Some y, Some z) \<Rightarrow> Some (((w * 16 + x) * 16 + y) * 16 + z)
      | _ \<Rightarrow> None)"
| "hex4 _ = None"

definition simple_escape :: "char \<Rightarrow> char option" where
  "simple_escape e =
     (if e = CHR 0x22 \<or> e = CHR 0x5C \<or> e = CHR ''/'' then Some e
      else if e = CHR ''b'' then Some (CHR 0x08)
      else if e = CHR ''f'' then Some (CHR 0x0C)
      else if e = CHR ''n'' then Some (CHR 0x0A)
      else if e = CHR ''r'' then Some (CHR 0x0D)
      else if e = CHR ''t'' then Some (CHR 0x09)
      else None)"

text \<open>
  \<open>low_surrogate rest\<close> looks for a second escape \<^verbatim>\<open>\uXXXX\<close> with a low surrogate
  right after a first one; \<open>utf16\<close> joins a pair.
\<close>

definition low_surrogate :: "string \<Rightarrow> nat option" where
  "low_surrogate rest =
     (if take 2 rest = [CHR 0x5C, CHR ''u''] then
        (case hex4 (take 4 (drop 2 rest)) of
           Some r1 \<Rightarrow> if 0xDC00 \<le> r1 \<and> r1 < 0xE000 then Some r1 else None
         | None \<Rightarrow> None)
      else None)"

definition utf16 :: "nat \<Rightarrow> nat \<Rightarrow> nat" where
  "utf16 r r1 = (r - 0xD800) * 1024 + (r1 - 0xDC00) + 0x10000"

text \<open>
  The inside of a string literal, after the opening quote: the decoded bytes and what
  follows the closing quote. Escapes are decoded, a control byte is refused, and a byte
  that is not part of well-formed UTF-8 is replaced by U+FFFD, as \<^verbatim>\<open>unquote\<close> does.
\<close>

fun string_body :: "string \<Rightarrow> string \<Rightarrow> json_fail + (string \<times> string)" where
  "string_body [] acc = Inl UnexpectedEnd"
| "string_body (c # cs) acc =
     (if c = CHR 0x22 then Inr (acc, cs)
      else if c = CHR 0x5C then
        (case cs of
           [] \<Rightarrow> Inl UnexpectedEnd
         | e # cs1 \<Rightarrow>
             if e = CHR ''u'' then
               (if length cs1 < 4 then
                  (if list_all (\<lambda>h. hexval h \<noteq> None) cs1 then Inl UnexpectedEnd else Inl Invalid)
                else
                  (case hex4 (take 4 cs1) of
                     None \<Rightarrow> Inl Invalid
                   | Some r \<Rightarrow>
                       if 0xD800 \<le> r \<and> r < 0xDC00 then
                         (case low_surrogate (drop 4 cs1) of
                            Some r1 \<Rightarrow> string_body (drop 10 cs1) (acc @ EncodeRune (utf16 r r1))
                          | None \<Rightarrow> string_body (drop 4 cs1) (acc @ replacement))
                       else string_body (drop 4 cs1) (acc @ EncodeRune r)))
             else
               (case simple_escape e of
                  None \<Rightarrow> Inl Invalid
                | Some x \<Rightarrow> string_body cs1 (acc @ [x])))
      else if between c 0x00 0x1F then Inl Invalid
      else if utf8_width (c # cs) = 0 then string_body cs (acc @ replacement)
      else string_body (drop (utf8_width (c # cs) - 1) cs) (acc @ take (utf8_width (c # cs)) (c # cs)))"

text \<open>
  A number: an optional minus sign, an integer part without a leading zero, an optional
  fraction and an optional exponent. \<open>need_digits\<close> reads the digits that must follow a
  point or an exponent mark.
\<close>

definition need_digits :: "string \<Rightarrow> json_fail + string" where
  "need_digits s =
     (case s of
        [] \<Rightarrow> Inl UnexpectedEnd
      | d # ds \<Rightarrow> if is_digit d then Inr (dropWhile is_digit ds) else Inl Invalid)"

definition number_end :: "string \<Rightarrow> json_fail + string" where
  "number_end s =
     (case (case (if take 1 s = ''-'' then drop 1 s else s) of
              [] \<Rightarrow> Inl UnexpectedEnd
            | d # ds \<Rightarrow>
                if d = CHR ''0'' then Inr ds
                else if is_digit d then Inr (dropWhile is_digit ds)
                else Inl Invalid) of
        Inl f \<Rightarrow> Inl f
      | Inr s1 \<Rightarrow>
          (case (if take 1 s1 = ''.'' then need_digits (drop 1 s1) else Inr s1) of
             Inl f \<Rightarrow> Inl f
           | Inr s2 \<Rightarrow>
               if take 1 s2 = ''e'' \<or> take 1 s2 = ''E''
               then need_digits
                      (if take 1 (drop 1 s2) = ''+'' \<or> take 1 (drop 1 s2) = ''-''
                       then drop 2 s2 else drop 1 s2)
               else Inr s2))"

definition literal :: "string \<Rightarrow> json \<Rightarrow> string \<Rightarrow> json_fail + (json \<times> string)" where
  "literal word v s =
     (if prefix word s then Inr (v, drop (length word) s)
      else if prefix s word then Inl UnexpectedEnd
      else Inl Invalid)"

text \<open>
  Values, the elements of an array and the members of an object. Each function is given
  the input from the first byte of what it reads and answers with the rest of the
  input. The recursion is on the length of the input: the comparisons of lengths before
  the calls of \<open>elements\<close> and \<open>members\<close> state that the input has become shorter.
\<close>

function value_at :: "string \<Rightarrow> json_fail + (json \<times> string)"
  and elements :: "string \<Rightarrow> json list \<Rightarrow> json_fail + (json \<times> string)"
  and members :: "string \<Rightarrow> (string \<times> json) list \<Rightarrow> json_fail + (json \<times> string)"
where
  "value_at s =
     (case s of
        [] \<Rightarrow> Inl UnexpectedEnd
      | c # cs \<Rightarrow>
          if c = CHR ''{'' then
            (case skip_ws cs of
               [] \<Rightarrow> Inl UnexpectedEnd
             | d # ds \<Rightarrow> if d = CHR ''}'' then Inr (JObject [], ds) else members (d # ds) [])
          else if c = CHR ''['' then
            (case skip_ws cs of
               [] \<Rightarrow> Inl UnexpectedEnd
             | d # ds \<Rightarrow> if d = CHR '']'' then Inr (JArray [], ds) else elements (d # ds) [])
          else if c = CHR 0x22 then
            (case string_body cs [] of
               Inl f \<Rightarrow> Inl f
             | Inr (str, rest) \<Rightarrow> Inr (JString str, rest))
          else if c = CHR ''-'' \<or> is_digit c then
            (case number_end s of
               Inl f \<Rightarrow> Inl f
             | Inr rest \<Rightarrow> Inr (JNumber (take (length s - length rest) s), rest))
          else if c = CHR ''t'' then literal ''true'' (JBool True) s
          else if c = CHR ''f'' then literal ''false'' (JBool False) s
          else if c = CHR ''n'' then literal ''null'' JNull s
          else Inl Invalid)"
| "elements s acc =
     (case value_at s of
        Inl f \<Rightarrow> Inl f
      | Inr (v, rest) \<Rightarrow>
          (case skip_ws rest of
             [] \<Rightarrow> Inl UnexpectedEnd
           | d # ds \<Rightarrow>
               if d = CHR '','' then
                 (if length ds < length s then elements (skip_ws ds) (acc @ [v]) else Inl Invalid)
               else if d = CHR '']'' then Inr (JArray (acc @ [v]), ds)
               else Inl Invalid))"
| "members s acc =
     (case s of
        [] \<Rightarrow> Inl UnexpectedEnd
      | c # cs \<Rightarrow>
          if c \<noteq> CHR 0x22 then Inl Invalid
          else
            (case string_body cs [] of
               Inl f \<Rightarrow> Inl f
             | Inr (key, rest) \<Rightarrow>
                 (case skip_ws rest of
                    [] \<Rightarrow> Inl UnexpectedEnd
                  | d # ds \<Rightarrow>
                      if d \<noteq> CHR '':'' then Inl Invalid
                      else if \<not> length ds < length s then Inl Invalid
                      else
                        (case value_at (skip_ws ds) of
                           Inl f \<Rightarrow> Inl f
                         | Inr (v, rest2) \<Rightarrow>
                             (case skip_ws rest2 of
                                [] \<Rightarrow> Inl UnexpectedEnd
                              | e # es \<Rightarrow>
                                  if e = CHR '','' then
                                    (if length es < length s
                                     then members (skip_ws es) (acc @ [(key, v)])
                                     else Inl Invalid)
                                  else if e = CHR ''}'' then Inr (JObject (acc @ [(key, v)]), es)
                                  else Inl Invalid)))))"
  by pat_completeness auto
termination
proof (relation "measure (\<lambda>x. case x of
                     Inl s \<Rightarrow> 2 * length s
                   | Inr (Inl (s, acc)) \<Rightarrow> 2 * length s + 1
                   | Inr (Inr (s, acc)) \<Rightarrow> 2 * length s + 1)", goal_cases)
  case 1
  show ?case by simp
next
  case (2 s c cs d ds)
  have "length (skip_ws cs) \<le> length cs"
    by (simp add: skip_ws_def length_dropWhile_le)
  with 2 show ?case by simp
next
  case (3 s c cs d ds)
  have "length (skip_ws cs) \<le> length cs"
    by (simp add: skip_ws_def length_dropWhile_le)
  with 3 show ?case by simp
next
  case (4 s acc)
  show ?case by simp
next
  case (5 s acc x v rest d ds)
  have "length (skip_ws ds) \<le> length ds"
    by (simp add: skip_ws_def length_dropWhile_le)
  with 5 show ?case by simp
next
  case (6 s acc c cs x key rest d ds)
  have "length (skip_ws ds) \<le> length ds"
    by (simp add: skip_ws_def length_dropWhile_le)
  with 6 show ?case by simp
next
  case (7 s acc c cs x key rest d ds y v rest2 e es)
  have "length (skip_ws es) \<le> length es"
    by (simp add: skip_ws_def length_dropWhile_le)
  with 7 show ?case by simp
qed

declare value_at.simps [simp del] elements.simps [simp del] members.simps [simp del]

text \<open>
  Decoding into a struct. A member whose key equals the name of a field, or equals it up
  to case, sets the field. For a name in ASCII the keys equal up to case are those with
  the same image under \<open>foldName\<close>: ASCII letters in upper case, and the two code points
  outside ASCII that fold to an ASCII letter, U+017F (to S) and U+212A (to K).
\<close>

fun foldName :: "string \<Rightarrow> string" where
  "foldName [] = []"
| "foldName (c # cs) =
     (if c = CHR 0xC5 \<and> take 1 cs = [CHR 0xBF] then CHR ''S'' # foldName (drop 1 cs)
      else if c = CHR 0xE2 \<and> take 2 cs = [CHR 0x84, CHR 0xAA] then CHR ''K'' # foldName (drop 2 cs)
      else (if between c 0x61 0x7A then char_of (of_char c - (0x20 :: nat)) else c) # foldName cs)"

definition key_is :: "string \<Rightarrow> string \<Rightarrow> bool" where
  "key_is name k = (foldName k = foldName name)"

text \<open>
  A string field takes a JSON string, is left as it is by \<^verbatim>\<open>null\<close>, and any other
  value is a type error; the decoder goes on and reports the error at the end. The
  state is the value of the field and whether a type error has been seen.
\<close>

fun assign_string :: "json \<Rightarrow> string \<times> bool \<Rightarrow> string \<times> bool" where
  "assign_string (JString s) (v, bad) = (s, bad)"
| "assign_string JNull (v, bad) = (v, bad)"
| "assign_string _ (v, bad) = (v, True)"

definition string_field :: "string \<Rightarrow> (string \<times> json) list \<Rightarrow> string \<times> bool \<Rightarrow> string \<times> bool" where
  "string_field name kvs st = fold (\<lambda>(k, x) st. if key_is name k then assign_string x st else st) kvs st"

definition type_error :: error where
  "type_error = UnmarshalTypeError ''json: cannot unmarshal''"

text \<open>\<^verbatim>\<open>struct { AccessToken string `json:"access_token"` }\<close>\<close>

definition token_of_json :: "json \<Rightarrow> error + string" where
  "token_of_json j =
     (case j of
        JNull \<Rightarrow> Inr []
      | JObject kvs \<Rightarrow>
          (case string_field ''access_token'' kvs ([], False) of
             (v, bad) \<Rightarrow> if bad then Inl type_error else Inr v)
      | _ \<Rightarrow> Inl type_error)"

text \<open>\<^verbatim>\<open>struct { Payload struct { Data string `json:"data"` } `json:"payload"` }\<close>\<close>

fun assign_payload :: "json \<Rightarrow> string \<times> bool \<Rightarrow> string \<times> bool" where
  "assign_payload (JObject kvs) st = string_field ''data'' kvs st"
| "assign_payload JNull st = st"
| "assign_payload _ (v, bad) = (v, True)"

definition payload_of_json :: "json \<Rightarrow> error + string" where
  "payload_of_json j =
     (case j of
        JNull \<Rightarrow> Inr []
      | JObject kvs \<Rightarrow>
          (case fold (\<lambda>(k, x) st. if key_is ''payload'' k then assign_payload x st else st) kvs ([], False) of
             (v, bad) \<Rightarrow> if bad then Inl type_error else Inr v)
      | _ \<Rightarrow> Inl type_error)"

text \<open>
  \<^verbatim>\<open>json.Unmarshal\<close> wants one value and nothing but white space around it. The texts
  of the syntax errors are Go's for an input that ends early and shortened otherwise
  (Go names the offending byte and what it was looking for).
\<close>

definition Unmarshal :: "(json \<Rightarrow> error + 'a) \<Rightarrow> string \<Rightarrow> error + 'a" where
  "Unmarshal into data =
     (case value_at (skip_ws data) of
        Inl UnexpectedEnd \<Rightarrow> Inl (SyntaxError ''unexpected end of JSON input'')
      | Inl Invalid \<Rightarrow> Inl (SyntaxError ''invalid character'')
      | Inr (j, rest) \<Rightarrow>
          if skip_ws rest = [] then into j else Inl (SyntaxError ''invalid character''))"

text \<open>
  \<^verbatim>\<open>json.NewDecoder(r).Decode\<close> reads the first value of a stream and leaves the rest
  unread. The stream is given by its bytes and the error that ends it, if it does not
  end cleanly. A stream that ends before the value is complete gives the error of the
  stream, or \<^verbatim>\<open>io.EOF\<close> when nothing but white space came, or
  \<^verbatim>\<open>io.ErrUnexpectedEOF\<close>.
\<close>

definition Decode :: "(json \<Rightarrow> error + 'a) \<Rightarrow> string \<times> string option \<Rightarrow> error + 'a" where
  "Decode into r =
     (case value_at (skip_ws (fst r)) of
        Inl UnexpectedEnd \<Rightarrow>
          (case snd r of
             Some m \<Rightarrow> Inl (ReadErr m)
           | None \<Rightarrow> if skip_ws (fst r) = [] then Inl io_EOF else Inl io_ErrUnexpectedEOF)
      | Inl Invalid \<Rightarrow> Inl (SyntaxError ''invalid character'')
      | Inr (j, rest) \<Rightarrow> into j)"

subsection \<open>Standard library: encoding/json, writing\<close>

text \<open>
  The values the package marshals are maps from strings to maps or strings.
  \<^verbatim>\<open>json.Marshal\<close> writes the members of a map in the order of their keys, and a
  string between quotes with \<^verbatim>\<open>"\<close>, \<^verbatim>\<open>\\<close>, control bytes and, as it escapes for HTML,
  \<^verbatim>\<open><\<close>, \<^verbatim>\<open>>\<close> and \<^verbatim>\<open>&\<close> escaped. Bytes that are not well-formed UTF-8 become
  the escape of U+FFFD, and U+2028 and U+2029 are escaped.
\<close>

datatype go_value = String string | Map "(string \<times> go_value) list"

definition hex :: "nat \<Rightarrow> char" where
  "hex n = ''0123456789abcdef'' ! n"

function quote_bytes :: "string \<Rightarrow> string" where
  "quote_bytes [] = []"
| "quote_bytes (c # cs) =
     (if between c 0x00 0x7F then
        (if c = CHR 0x22 \<or> c = CHR 0x5C then [CHR 0x5C, c]
         else if c = CHR 0x08 then [CHR 0x5C, CHR ''b'']
         else if c = CHR 0x0C then [CHR 0x5C, CHR ''f'']
         else if c = CHR 0x0A then [CHR 0x5C, CHR ''n'']
         else if c = CHR 0x0D then [CHR 0x5C, CHR ''r'']
         else if c = CHR 0x09 then [CHR 0x5C, CHR ''t'']
         else if between c 0x00 0x1F \<or> c = CHR ''<'' \<or> c = CHR ''>'' \<or> c = CHR ''&''
           then [CHR 0x5C, CHR ''u'', CHR ''0'', CHR ''0'', hex (of_char c div 16), hex (of_char c mod 16)]
         else [c]) @ quote_bytes cs
      else if utf8_width (c # cs) = 0 then [CHR 0x5C] @ ''ufffd'' @ quote_bytes cs
      else if take 3 (c # cs) = [CHR 0xE2, CHR 0x80, CHR 0xA8] then [CHR 0x5C] @ ''u2028'' @ quote_bytes (drop 2 cs)
      else if take 3 (c # cs) = [CHR 0xE2, CHR 0x80, CHR 0xA9] then [CHR 0x5C] @ ''u2029'' @ quote_bytes (drop 2 cs)
      else take (utf8_width (c # cs)) (c # cs) @ quote_bytes (drop (utf8_width (c # cs) - 1) cs))"
  by pat_completeness auto
termination
  by (relation "measure length") auto

definition quote :: "string \<Rightarrow> string" where
  "quote s = [CHR 0x22] @ quote_bytes s @ [CHR 0x22]"

fun join :: "string \<Rightarrow> string list \<Rightarrow> string" where
  "join sep [] = []"
| "join sep [x] = x"
| "join sep (x # y # ys) = x @ sep @ join sep (y # ys)"

fun Marshal :: "go_value \<Rightarrow> string"
  and Marshal_members :: "(string \<times> go_value) list \<Rightarrow> (string \<times> string) list"
where
  "Marshal (String s) = quote s"
| "Marshal (Map kvs) = ''{'' @ join '','' (map snd (sort_key fst (Marshal_members kvs))) @ ''}''"
| "Marshal_members [] = []"
| "Marshal_members ((k, v) # kvs) = (k, quote k @ '':'' @ Marshal v) # Marshal_members kvs"

subsection \<open>Standard library: the verb %q\<close>

text \<open>
  \<^verbatim>\<open>%q\<close> prints a string as \<^verbatim>\<open>strconv.Quote\<close> does: between double quotes, with
  \<^verbatim>\<open>"\<close> and \<^verbatim>\<open>\\<close> escaped, the usual names for the control characters that have
  one, and \<^verbatim>\<open>\xNN\<close> for the other control bytes. For bytes outside ASCII Go prints a
  printable code point as it is and escapes the others, which takes the tables of
  Unicode; here every such byte is written \<^verbatim>\<open>\xNN\<close>, which is what Go does for a byte
  that is not part of well-formed UTF-8. The package never reads this text.
\<close>

definition quote_byte :: "char \<Rightarrow> string" where
  "quote_byte c =
     (if c = CHR 0x22 \<or> c = CHR 0x5C then [CHR 0x5C, c]
      else if c = CHR 0x07 then [CHR 0x5C, CHR ''a'']
      else if c = CHR 0x08 then [CHR 0x5C, CHR ''b'']
      else if c = CHR 0x0C then [CHR 0x5C, CHR ''f'']
      else if c = CHR 0x0A then [CHR 0x5C, CHR ''n'']
      else if c = CHR 0x0D then [CHR 0x5C, CHR ''r'']
      else if c = CHR 0x09 then [CHR 0x5C, CHR ''t'']
      else if c = CHR 0x0B then [CHR 0x5C, CHR ''v'']
      else if between c 0x20 0x7E then [c]
      else [CHR 0x5C, CHR ''x'', hex (of_char c div 16), hex (of_char c mod 16)])"

definition Quote :: "string \<Rightarrow> string" where
  "Quote s = [CHR 0x22] @ concat (map quote_byte s) @ [CHR 0x22]"

section \<open>The package\<close>

subsection \<open>Requests, responses and the environment\<close>

record request =
  Method :: string
  URL :: string
  Header :: "(string \<times> string) list"
  Body :: string

text \<open>
  \<^verbatim>\<open>http.NewRequestWithContext\<close> fails on a method or a URL that is not well formed.
  The methods are constants and the URLs are a base URL followed by constant text and by
  names that have passed validation; the base URLs are taken to be well formed, so the
  request is always built. \<^verbatim>\<open>Header.Set\<close> replaces the value of a key; the keys the
  package sets are in canonical form already.
\<close>

definition NewRequest :: "string \<Rightarrow> string \<Rightarrow> string \<Rightarrow> request" where
  "NewRequest m u b = \<lparr>Method = m, URL = u, Header = [], Body = b\<rparr>"

definition Header_Set :: "string \<Rightarrow> string \<Rightarrow> request \<Rightarrow> request" where
  "Header_Set k v r = r\<lparr>Header := filter (\<lambda>p. fst p \<noteq> k) (Header r) @ [(k, v)]\<rparr>"

definition Header_Get :: "request \<Rightarrow> string \<Rightarrow> string option" where
  "Header_Get r k = map_of (Header r) k"

text \<open>
  \<^verbatim>\<open>httpClient.Do\<close> answers with an error of the transport or with a response: its
  status code and its body, a stream given by its bytes and by the error that ends it
  when it does not end cleanly.
\<close>

datatype http_result =
    DoError string
  | Response int string "string option"

text \<open>
  \<^verbatim>\<open>io.LimitReader\<close> stops the stream after \<open>n\<close> bytes; \<^verbatim>\<open>io.ReadAll\<close> gives the bytes
  read and the error, if any.
\<close>

definition LimitReader :: "string \<times> string option \<Rightarrow> nat \<Rightarrow> string \<times> string option" where
  "LimitReader r n = (if n \<le> length (fst r) then (take n (fst r), None) else r)"

definition ReadAll :: "string \<times> string option \<Rightarrow> string \<times> string option" where
  "ReadAll r = r"

text \<open>
  What an operation does to the outside is a sequence of events: a request with its
  result, or the \<^verbatim>\<open>select\<close> between the retry delay and \<^verbatim>\<open>ctx.Done()\<close> with its
  outcome, the error of the context when the context was done first. The environment
  decides both, as functions of all that has happened so far. \<^verbatim>\<open>metadataURL\<close> and
  \<^verbatim>\<open>apiURL\<close> are variables of the package, which its tests set.
\<close>

datatype event =
    Roundtrip request http_result
  | Select "ctx_err option"

type_synonym trace = "event list"

record env =
  metadataURL :: string
  apiURL :: string
  Do :: "trace \<Rightarrow> request \<Rightarrow> http_result"
  Done :: "trace \<Rightarrow> ctx_err option"

text \<open>
  The head of every loop body: before each attempt but the first, wait for the retry
  delay or for the context.
\<close>

definition wait :: "env \<Rightarrow> nat \<Rightarrow> trace \<Rightarrow> ctx_err option \<times> trace" where
  "wait env attempt tr =
     (if attempt > 0 then (Done env tr, tr @ [Select (Done env tr)]) else (None, tr))"

definition send :: "env \<Rightarrow> request \<Rightarrow> trace \<Rightarrow> http_result \<times> trace" where
  "send env req tr = (Do env tr req, tr @ [Roundtrip req (Do env tr req)])"

subsection \<open>The metadata server\<close>

text \<open>The request of both lookups: a \<^verbatim>\<open>GET\<close> without body, with the header the server asks for.\<close>

definition metadata_get :: "string \<Rightarrow> request" where
  "metadata_get url = Header_Set ''Metadata-Flavor'' ''Google'' (NewRequest ''GET'' url [])"

text \<open>
  Each loop \<^verbatim>\<open>for attempt := range maxRetries\<close> is a recursion over the attempts still
  to make, started with \<open>[0..<maxRetries]\<close>. The equation for the empty list is the code
  after the loop, reached when no attempt has left the loop early.
\<close>

fun getProjectID_loop :: "env \<Rightarrow> nat list \<Rightarrow> error option \<Rightarrow> trace \<Rightarrow> (error + string) \<times> trace" where
  "getProjectID_loop env [] lastErr tr = (Inl (Wrap ''failed to get project ID'' lastErr), tr)"
| "getProjectID_loop env (attempt # rest) lastErr tr =
     (case wait env attempt tr of
        (Some e, tr1) \<Rightarrow> (Inl (CtxErr e), tr1)
      | (None, tr1) \<Rightarrow>
          (case send env (metadata_get (metadataURL env @ ''/project/project-id'')) tr1 of
             (DoError m, tr2) \<Rightarrow> getProjectID_loop env rest (Some (TransportErr m)) tr2
           | (Response status body berr, tr2) \<Rightarrow>
               if status \<noteq> 200
               then getProjectID_loop env rest (Some (Errorf (''metadata server status '' @ itoa status))) tr2
               else
                 (case ReadAll (LimitReader (body, berr) maxBodySize) of
                    (b, Some m) \<Rightarrow> getProjectID_loop env rest (Some (ReadErr m)) tr2
                  | (b, None) \<Rightarrow>
                      if strings_TrimSpace b \<noteq> [] then (Inr (strings_TrimSpace b), tr2)
                      else getProjectID_loop env rest (Some (New ''empty project ID'')) tr2)))"

definition getProjectID :: "env \<Rightarrow> trace \<Rightarrow> (error + string) \<times> trace" where
  "getProjectID env tr = getProjectID_loop env [0..<maxRetries] None tr"

fun getAccessToken_loop :: "env \<Rightarrow> nat list \<Rightarrow> error option \<Rightarrow> trace \<Rightarrow> (error + string) \<times> trace" where
  "getAccessToken_loop env [] lastErr tr = (Inl (Wrap ''failed to get access token'' lastErr), tr)"
| "getAccessToken_loop env (attempt # rest) lastErr tr =
     (case wait env attempt tr of
        (Some e, tr1) \<Rightarrow> (Inl (CtxErr e), tr1)
      | (None, tr1) \<Rightarrow>
          (case send env (metadata_get (metadataURL env @ ''/instance/service-accounts/default/token'')) tr1 of
             (DoError m, tr2) \<Rightarrow> getAccessToken_loop env rest (Some (TransportErr m)) tr2
           | (Response status body berr, tr2) \<Rightarrow>
               if status \<noteq> 200
               then getAccessToken_loop env rest (Some (Errorf (''metadata server status '' @ itoa status))) tr2
               else
                 (case Decode token_of_json (LimitReader (body, berr) maxBodySize) of
                    Inl err \<Rightarrow> getAccessToken_loop env rest (Some err) tr2
                  | Inr t \<Rightarrow>
                      if t \<noteq> [] then (Inr t, tr2)
                      else getAccessToken_loop env rest (Some (New ''empty access token'')) tr2)))"

definition getAccessToken :: "env \<Rightarrow> trace \<Rightarrow> (error + string) \<times> trace" where
  "getAccessToken env tr = getAccessToken_loop env [0..<maxRetries] None tr"

subsection \<open>Fetch and FetchFromProject\<close>

text \<open>The request for a secret: a \<^verbatim>\<open>GET\<close> without body that carries the token.\<close>

definition bearer_get :: "string \<Rightarrow> string \<Rightarrow> request" where
  "bearer_get url t = Header_Set ''Authorization'' (''Bearer '' @ t) (NewRequest ''GET'' url [])"

fun FetchFromProject_loop ::
  "env \<Rightarrow> string \<Rightarrow> string \<Rightarrow> nat list \<Rightarrow> error option \<Rightarrow> trace \<Rightarrow> (error + string) \<times> trace" where
  "FetchFromProject_loop env url t [] lastErr tr = (Inl (Wrap ''failed to access secret'' lastErr), tr)"
| "FetchFromProject_loop env url t (attempt # rest) lastErr tr =
     (case wait env attempt tr of
        (Some e, tr1) \<Rightarrow> (Inl (CtxErr e), tr1)
      | (None, tr1) \<Rightarrow>
          (case send env (bearer_get url t) tr1 of
             (DoError m, tr2) \<Rightarrow> FetchFromProject_loop env url t rest (Some (TransportErr m)) tr2
           | (Response status body berr, tr2) \<Rightarrow>
               if 400 \<le> status \<and> status < 500
               then (Inl (Errorf (''failed to access secret: status '' @ itoa status)), tr2)
               else if status \<noteq> 200
               then FetchFromProject_loop env url t rest (Some (Errorf (''status '' @ itoa status))) tr2
               else
                 (case ReadAll (LimitReader (body, berr) maxBodySize) of
                    (b, Some m) \<Rightarrow> FetchFromProject_loop env url t rest (Some (ReadErr m)) tr2
                  | (b, None) \<Rightarrow>
                      (case Unmarshal payload_of_json b of
                         Inl err \<Rightarrow> FetchFromProject_loop env url t rest (Some err) tr2
                       | Inr data \<Rightarrow>
                           (case DecodeString data of
                              Inl err \<Rightarrow>
                                FetchFromProject_loop env url t rest
                                  (Some (Wrap ''failed to decode secret data'' (Some err))) tr2
                            | Inr decoded \<Rightarrow> (Inr decoded, tr2))))))"

text \<open>The local variable \<^verbatim>\<open>url\<close> of \<^verbatim>\<open>FetchFromProject\<close>.\<close>

definition accessURL :: "env \<Rightarrow> string \<Rightarrow> string \<Rightarrow> string" where
  "accessURL env pid name =
     apiURL env @ ''/projects/'' @ pid @ ''/secrets/'' @ name @ ''/versions/latest:access''"

definition FetchFromProject :: "env \<Rightarrow> string \<Rightarrow> string \<Rightarrow> trace \<Rightarrow> (error + string) \<times> trace" where
  "FetchFromProject env pid name tr =
     (if \<not> MatchString projectIDRegex pid
      then (Inl (Errorf (''invalid project ID format: '' @ Quote pid)), tr)
      else if \<not> MatchString secretNameRegex name
      then (Inl (New ''invalid secret name format''), tr)
      else
        (case getAccessToken env tr of
           (Inl err, tr1) \<Rightarrow> (Inl err, tr1)
         | (Inr t, tr1) \<Rightarrow>
             FetchFromProject_loop env (accessURL env pid name) t [0..<maxRetries] None tr1))"

definition Fetch :: "env \<Rightarrow> string \<Rightarrow> trace \<Rightarrow> (error + string) \<times> trace" where
  "Fetch env name tr =
     (if \<not> MatchString secretNameRegex name
      then (Inl (New ''invalid secret name format''), tr)
      else
        (case getProjectID env tr of
           (Inl err, tr1) \<Rightarrow> (Inl err, tr1)
         | (Inr p, tr1) \<Rightarrow> FetchFromProject env p name tr1))"

subsection \<open>Store and StoreInProject\<close>

text \<open>
  The creation loop leaves the function with an error (\<open>Inl\<close>), or it ends, by
  \<^verbatim>\<open>break\<close> or after the last attempt, with the value of \<^verbatim>\<open>createErr\<close> (\<open>Inr\<close>). The
  body of a response that is not a success is read for the message, whatever the
  reading gives.
\<close>

text \<open>
  The request of both phases of a store: a \<^verbatim>\<open>POST\<close> of JSON data that carries the token.
\<close>

definition post :: "string \<Rightarrow> string \<Rightarrow> string \<Rightarrow> request" where
  "post url data tok =
     Header_Set ''Content-Type'' ''application/json''
       (Header_Set ''Authorization'' (''Bearer '' @ tok) (NewRequest ''POST'' url data))"

fun create_loop ::
  "env \<Rightarrow> string \<Rightarrow> string \<Rightarrow> string \<Rightarrow> nat list \<Rightarrow> error option \<Rightarrow> trace
     \<Rightarrow> (error + error option) \<times> trace" where
  "create_loop env createURL createData tok [] createErr tr = (Inr createErr, tr)"
| "create_loop env createURL createData tok (attempt # rest) createErr tr =
     (case wait env attempt tr of
        (Some e, tr1) \<Rightarrow> (Inl (CtxErr e), tr1)
      | (None, tr1) \<Rightarrow>
          (case send env (post createURL createData tok) tr1 of
             (DoError m, tr2) \<Rightarrow>
               create_loop env createURL createData tok rest (Some (TransportErr m)) tr2
           | (Response status body berr, tr2) \<Rightarrow>
               if status = 200 \<or> status = 201 then (Inr createErr, tr2)
               else if status = 409
               then (Inr (Some (Errorf (''secret already exists: status '' @ itoa status))), tr2)
               else if 400 \<le> status \<and> status < 500
               then (Inl (Errorf (''failed to create secret: status '' @ itoa status @ '': ''
                                   @ fst (ReadAll (LimitReader (body, berr) maxBodySize)))), tr2)
               else create_loop env createURL createData tok rest
                      (Some (Errorf (''status '' @ itoa status @ '': ''
                                      @ fst (ReadAll (LimitReader (body, berr) maxBodySize))))) tr2))"

fun addVersion_loop ::
  "env \<Rightarrow> string \<Rightarrow> string \<Rightarrow> string \<Rightarrow> nat list \<Rightarrow> error option \<Rightarrow> trace
     \<Rightarrow> error option \<times> trace" where
  "addVersion_loop env versionURL versionData tok [] lastErr tr =
     (Some (Wrap ''failed to add secret version'' lastErr), tr)"
| "addVersion_loop env versionURL versionData tok (attempt # rest) lastErr tr =
     (case wait env attempt tr of
        (Some e, tr1) \<Rightarrow> (Some (CtxErr e), tr1)
      | (None, tr1) \<Rightarrow>
          (case send env (post versionURL versionData tok) tr1 of
             (DoError m, tr2) \<Rightarrow>
               addVersion_loop env versionURL versionData tok rest (Some (TransportErr m)) tr2
           | (Response status body berr, tr2) \<Rightarrow>
               if status = 200 then (None, tr2)
               else if 400 \<le> status \<and> status < 500
               then (Some (Errorf (''failed to add secret version: status '' @ itoa status @ '': ''
                                    @ fst (ReadAll (LimitReader (body, berr) maxBodySize)))), tr2)
               else addVersion_loop env versionURL versionData tok rest
                      (Some (Errorf (''status '' @ itoa status @ '': ''
                                      @ fst (ReadAll (LimitReader (body, berr) maxBodySize))))) tr2))"

text \<open>The local variables \<^verbatim>\<open>createURL\<close> and \<^verbatim>\<open>versionURL\<close> of \<^verbatim>\<open>StoreInProject\<close>.\<close>

definition createURL :: "env \<Rightarrow> string \<Rightarrow> string \<Rightarrow> string" where
  "createURL env pid name = apiURL env @ ''/projects/'' @ pid @ ''/secrets?secretId='' @ name"

definition versionURL :: "env \<Rightarrow> string \<Rightarrow> string \<Rightarrow> string" where
  "versionURL env pid name = apiURL env @ ''/projects/'' @ pid @ ''/secrets/'' @ name @ '':addVersion''"

definition versionData :: "string \<Rightarrow> string" where
  "versionData val = Marshal (Map [(''payload'', Map [(''data'', String (EncodeToString val))])])"

text \<open>
  The second half of \<^verbatim>\<open>StoreInProject\<close>, from \<^verbatim>\<open>versionURL\<close> on.
\<close>

definition addVersion :: "env \<Rightarrow> string \<Rightarrow> string \<Rightarrow> string \<Rightarrow> string \<Rightarrow> trace \<Rightarrow> error option \<times> trace" where
  "addVersion env pid name val tok tr =
     addVersion_loop env (versionURL env pid name) (versionData val) tok [0..<maxRetries] None tr"

text \<open>
  \<^verbatim>\<open>secret.go\<close> is kept in two revisions, which differ in the value of
  \<^verbatim>\<open>createReqBody\<close> and in nothing else that a caller or a server can observe: in the
  first the policy \<^verbatim>\<open>automatic\<close> is an empty map, in the second (whose comments read
  ``inlined from createSecret'') it is the string \<^verbatim>\<open>"{}"\<close>. The body is an argument of
  the part they share.
\<close>

definition createReqBody :: go_value where
  "createReqBody = Map [(''replication'', Map [(''automatic'', Map [])])]"

definition createReqBody_inlined :: go_value where
  "createReqBody_inlined = Map [(''replication'', Map [(''automatic'', String ''{}'')])]"

definition StoreInProject_with ::
  "go_value \<Rightarrow> env \<Rightarrow> string \<Rightarrow> string \<Rightarrow> string \<Rightarrow> trace \<Rightarrow> error option \<times> trace" where
  "StoreInProject_with reqBody env pid name val tr =
     (if \<not> MatchString projectIDRegex pid
      then (Some (Errorf (''invalid project ID format: '' @ Quote pid)), tr)
      else if \<not> MatchString secretNameRegex name
      then (Some (New ''invalid secret name format''), tr)
      else
        (case getAccessToken env tr of
           (Inl err, tr1) \<Rightarrow> (Some err, tr1)
         | (Inr tok, tr1) \<Rightarrow>
             (case create_loop env (createURL env pid name) (Marshal reqBody) tok
                     [0..<maxRetries] None tr1 of
                (Inl err, tr2) \<Rightarrow> (Some err, tr2)
              | (Inr createErr, tr2) \<Rightarrow>
                  (case createErr of
                     None \<Rightarrow> addVersion env pid name val tok tr2
                   | Some e \<Rightarrow>
                       if \<not> strings_Contains (Error e) ''secret already exists''
                       then (Some (Wrap ''failed to create secret'' createErr), tr2)
                       else addVersion env pid name val tok tr2))))"

definition StoreInProject :: "env \<Rightarrow> string \<Rightarrow> string \<Rightarrow> string \<Rightarrow> trace \<Rightarrow> error option \<times> trace" where
  "StoreInProject = StoreInProject_with createReqBody"

definition StoreInProject_inlined :: "env \<Rightarrow> string \<Rightarrow> string \<Rightarrow> string \<Rightarrow> trace \<Rightarrow> error option \<times> trace" where
  "StoreInProject_inlined = StoreInProject_with createReqBody_inlined"

definition Store_with :: "go_value \<Rightarrow> env \<Rightarrow> string \<Rightarrow> string \<Rightarrow> trace \<Rightarrow> error option \<times> trace" where
  "Store_with reqBody env name val tr =
     (if \<not> MatchString secretNameRegex name
      then (Some (New ''invalid secret name format''), tr)
      else
        (case getProjectID env tr of
           (Inl err, tr1) \<Rightarrow> (Some err, tr1)
         | (Inr p, tr1) \<Rightarrow> StoreInProject_with reqBody env p name val tr1))"

definition Store :: "env \<Rightarrow> string \<Rightarrow> string \<Rightarrow> trace \<Rightarrow> error option \<times> trace" where
  "Store = Store_with createReqBody"

definition Store_inlined :: "env \<Rightarrow> string \<Rightarrow> string \<Rightarrow> trace \<Rightarrow> error option \<times> trace" where
  "Store_inlined = Store_with createReqBody_inlined"

subsection \<open>Reading a trace\<close>

fun is_request :: "event \<Rightarrow> bool" where
  "is_request (Roundtrip req res) = True"
| "is_request (Select d) = False"

definition requests :: "trace \<Rightarrow> nat" where
  "requests tr = length (filter is_request tr)"

definition waits :: "trace \<Rightarrow> nat" where
  "waits tr = length (filter (\<lambda>ev. \<not> is_request ev) tr)"

subsection \<open>Scripted environments\<close>

text \<open>
  An environment that plays a script, as the test servers of the package do: the
  \<open>n\<close>-th request gets the \<open>n\<close>-th result of a list (the connection is refused once
  the list is used up), and the \<open>n\<close>-th wait the \<open>n\<close>-th outcome (the delay passes once
  that list is used up). The base URLs are the initial values of the package's
  variables.
\<close>

definition scripted :: "http_result list \<Rightarrow> ctx_err option list \<Rightarrow> env" where
  "scripted rs ds =
     \<lparr>metadataURL = ''http://metadata.google.internal/computeMetadata/v1'',
      apiURL = ''https://secretmanager.googleapis.com/v1'',
      Do = (\<lambda>tr req. case drop (requests tr) rs of [] \<Rightarrow> DoError ''connection refused'' | r # _ \<Rightarrow> r),
      Done = (\<lambda>tr. case drop (waits tr) ds of [] \<Rightarrow> None | d # _ \<Rightarrow> d)\<rparr>"

definition tokenOK :: http_result where
  \<open>tokenOK = Response 200 ''{"access_token":"test-token"}'' None\<close>

text \<open>
  An environment without memory: the result of a request depends on the request only,
  and the context is never done.
\<close>

definition stateless :: "(request \<Rightarrow> http_result) \<Rightarrow> env" where
  "stateless f =
     \<lparr>metadataURL = ''http://metadata.google.internal/computeMetadata/v1'',
      apiURL = ''https://secretmanager.googleapis.com/v1'',
      Do = (\<lambda>tr req. f req),
      Done = (\<lambda>tr. None)\<rparr>"

text \<open>The scenarios that the properties below are tried on.\<close>

definition deadline_env :: env where
  "deadline_env = scripted [tokenOK, Response 500 [] None] [Some DeadlineExceeded]"

definition conflict_env :: env where
  "conflict_env = scripted [tokenOK, Response 409 [] None, Response 200 ''{}'' None] []"

definition notfound_env :: env where
  "notfound_env = scripted [Response 404 [] None, Response 404 [] None, Response 404 [] None] []"

definition forbidden_env :: env where
  "forbidden_env = scripted [Response 403 ''denied'' None] []"

definition flaky_create_env :: env where
  "flaky_create_env =
     scripted [tokenOK, Response 503 [] None, Response 201 ''{}'' None, Response 200 ''{}'' None] []"

definition created_env :: env where
  "created_env = scripted [tokenOK, Response 201 ''{}'' None, Response 200 ''{}'' None] []"

definition garbled_env :: env where
  \<open>garbled_env =
     scripted [Response 200 ''not json'' None, Response 200 ''{"payload":{"data":"!!!"}}'' None] []\<close>

definition empty_token_env :: env where
  \<open>empty_token_env = stateless (\<lambda>req. Response 200 ''{"access_token":""}'' None)\<close>

definition exists_text_env :: env where
  "exists_text_env =
     stateless (\<lambda>req. if Method req = ''GET'' then tokenOK
                       else Response 500 ''secret already exists'' None)"

subsection \<open>Reading the events of a run\<close>

text \<open>
  A verdict says of an event whether it ends the run, and with which result.
  \<open>stops_at v evs r\<close>: in the events \<open>evs\<close> of a run with result \<open>r\<close>, an event that ends
  the run is the last one, and the result is the one it calls for.
\<close>

fun stops_at :: "(event \<Rightarrow> 'r option) \<Rightarrow> event list \<Rightarrow> 'r \<Rightarrow> bool" where
  "stops_at v [] r = True"
| "stops_at v (ev # evs) r = (case v ev of Some x \<Rightarrow> evs = [] \<and> r = x | None \<Rightarrow> stops_at v evs r)"

text \<open>\<open>sends q ev\<close>: if the event is a request, the request is \<open>q\<close>.\<close>

fun sends :: "request \<Rightarrow> event \<Rightarrow> bool" where
  "sends q (Roundtrip q' res) = (q' = q)"
| "sends q (Select d) = True"

text \<open>
  A run from the trace \<open>tr\<close> adds events to it, stops as the verdict says, and all its
  events have the property \<open>P\<close>.
\<close>

definition run_ok :: "(event \<Rightarrow> 'r option) \<Rightarrow> (event \<Rightarrow> bool) \<Rightarrow> trace \<Rightarrow> 'r \<times> trace \<Rightarrow> bool" where
  "run_ok v P tr R = (\<exists>evs. snd R = tr @ evs \<and> stops_at v evs (fst R) \<and> list_all P evs)"

text \<open>
  One attempt of a loop that sends the request \<open>q\<close>: the wait is cancelled and the loop
  returns the error of the context; or the request is sent and the loop returns; or the
  request is sent and the loop goes on with the attempts that are left.
\<close>

definition step_ok ::
  "env \<Rightarrow> (event \<Rightarrow> 'r option) \<Rightarrow> (ctx_err \<Rightarrow> 'r) \<Rightarrow> request
     \<Rightarrow> ('s \<Rightarrow> trace \<Rightarrow> 'r \<times> trace) \<Rightarrow> nat \<Rightarrow> trace \<Rightarrow> 'r \<times> trace \<Rightarrow> bool" where
  "step_ok env v mk q continue attempt tr R =
     (case wait env attempt tr of
        (Some e, tr1) \<Rightarrow> R = (mk e, tr1)
      | (None, tr1) \<Rightarrow>
          (\<exists>r. R = (r, tr1 @ [Roundtrip q (Do env tr1 q)])
                \<and> (v (Roundtrip q (Do env tr1 q)) = None \<or> v (Roundtrip q (Do env tr1 q)) = Some r))
          \<or> (\<exists>st. R = continue st (tr1 @ [Roundtrip q (Do env tr1 q)])
                \<and> v (Roundtrip q (Do env tr1 q)) = None))"

text \<open>
  The verdicts of the loops. A select that the context wins ends every loop with the
  error of the context. A response with a status from 400 to 499 ends the three loops
  that talk to the Secret Manager API, except that 409 ends the creation loop without
  an error of the function.
\<close>

fun cancelled :: "(error \<Rightarrow> 'r) \<Rightarrow> event \<Rightarrow> 'r option" where
  "cancelled mk (Select (Some e)) = Some (mk (CtxErr e))"
| "cancelled mk (Select None) = None"
| "cancelled mk (Roundtrip q res) = None"

fun access_verdict :: "event \<Rightarrow> (error + string) option" where
  "access_verdict (Select None) = None"
| "access_verdict (Select (Some e)) = Some (Inl (CtxErr e))"
| "access_verdict (Roundtrip q (DoError m)) = None"
| "access_verdict (Roundtrip q (Response st body berr)) =
     (if 400 \<le> st \<and> st < 500
      then Some (Inl (Errorf (''failed to access secret: status '' @ itoa st)))
      else None)"

fun create_verdict :: "event \<Rightarrow> (error + error option) option" where
  "create_verdict (Select None) = None"
| "create_verdict (Select (Some e)) = Some (Inl (CtxErr e))"
| "create_verdict (Roundtrip q (DoError m)) = None"
| "create_verdict (Roundtrip q (Response st body berr)) =
     (if st = 409 then Some (Inr (Some (Errorf ''secret already exists: status 409'')))
      else if 400 \<le> st \<and> st < 500
      then Some (Inl (Errorf (''failed to create secret: status '' @ itoa st @ '': ''
                               @ fst (LimitReader (body, berr) maxBodySize))))
      else None)"

fun addVersion_verdict :: "event \<Rightarrow> error option option" where
  "addVersion_verdict (Select None) = None"
| "addVersion_verdict (Select (Some e)) = Some (Some (CtxErr e))"
| "addVersion_verdict (Roundtrip q (DoError m)) = None"
| "addVersion_verdict (Roundtrip q (Response st body berr)) =
     (if st = 200 then Some None
      else if 400 \<le> st \<and> st < 500
      then Some (Some (Errorf (''failed to add secret version: status '' @ itoa st @ '': ''
                                @ fst (LimitReader (body, berr) maxBodySize))))
      else None)"

text \<open>The error of a result, \<^verbatim>\<open>nil\<close> for a success.\<close>

definition err_of :: "error + 'a \<Rightarrow> error option" where
  "err_of r = (case r of Inl e \<Rightarrow> Some e | Inr x \<Rightarrow> None)"

text \<open>
  \<open>cancellation_final tr R\<close>: the run \<open>R\<close> from the trace \<open>tr\<close> has added events to the
  trace, and a select among them that the context has won is the last of them and makes
  the error of the context the result.
\<close>

definition cancellation_final :: "trace \<Rightarrow> error option \<times> trace \<Rightarrow> bool" where
  "cancellation_final tr R =
     (\<exists>evs. snd R = tr @ evs \<and>
        (\<forall>i e. i < length evs \<and> evs ! i = Select (Some e)
                 \<longrightarrow> Suc i = length evs \<and> fst R = Some (CtxErr e)))"

text \<open>The same, said with a verdict: only a select that the context has won ends the run.\<close>

definition quiet :: "trace \<Rightarrow> error option \<times> trace \<Rightarrow> bool" where
  "quiet tr R = run_ok (cancelled Some) (\<lambda>ev. True) tr R"

section \<open>Properties of the standard-library models\<close>

subsection \<open>Base64: decoding inverts encoding\<close>

lemma of_char_lt: "(of_char c :: nat) < 256"
  by (cases c) simp

lemma m63: "(0x3F::nat) = mask 6" by (simp add: mask_eq_exp_minus_1)

lemma sextet_lt: "(x::nat) AND 0x3F < 64"
  unfolding m63 by (simp flip: take_bit_eq_mask add: take_bit_eq_mod)

lemma distinct_encodeStd: "distinct encodeStd"
  by (simp add: encodeStd_def)

lemma length_encodeStd: "length encodeStd = 64"
  by (simp add: encodeStd_def)

lemma decodeMap_encode: "v < 64 \<Longrightarrow> decodeMap (encode v) = Some v"
  unfolding decodeMap_def encode_def
  using map_of_zip_nth [of encodeStd "[0..<64]" v]
  by (simp add: distinct_encodeStd length_encodeStd)

lemma regroup:
  fixes val :: nat
  assumes "val < 2 ^ 24"
  shows "push_bit 18 (drop_bit 18 val AND 0x3F) OR push_bit 12 (drop_bit 12 val AND 0x3F)
          OR push_bit 6 (drop_bit 6 val AND 0x3F) OR (val AND 0x3F) = val"
proof (rule bit_eqI)
  fix n
  have "take_bit 24 val = val" using assms by (simp add: take_bit_nat_eq_self)
  then have b: "bit val n \<Longrightarrow> n < 24"
    by (metis bit_take_bit_iff)
  consider "n < 6" | "6 \<le> n" "n < 12" | "12 \<le> n" "n < 18" | "18 \<le> n" "n < 24" | "24 \<le> n"
    by linarith
  then show "bit (push_bit 18 (drop_bit 18 val AND 0x3F) OR push_bit 12 (drop_bit 12 val AND 0x3F)
          OR push_bit 6 (drop_bit 6 val AND 0x3F) OR (val AND 0x3F)) n = bit val n"
    unfolding m63 using b by cases (auto simp add: bit_simps)
qed

lemma pack_lt:
  fixes a b c :: nat
  assumes "a < 256" "b < 256" "c < 256"
  shows "push_bit 16 a OR push_bit 8 b OR c < 2 ^ 24"
proof -
  have "push_bit 16 a OR push_bit 8 b OR c = take_bit 24 (push_bit 16 a OR push_bit 8 b OR c)"
  proof (rule bit_eqI)
    fix n
    have "take_bit 8 a = a" "take_bit 8 b = b" "take_bit 8 c = c"
      using assms by (simp_all add: take_bit_nat_eq_self)
    then have ba: "\<And>m. bit a m \<Longrightarrow> m < 8" and bb: "\<And>m. bit b m \<Longrightarrow> m < 8" and bc: "\<And>m. bit c m \<Longrightarrow> m < 8"
      by (metis bit_take_bit_iff)+
    show "bit (push_bit 16 a OR push_bit 8 b OR c) n = bit (take_bit 24 (push_bit 16 a OR push_bit 8 b OR c)) n"
      by (auto simp add: bit_simps dest: ba bb bc)
  qed
  then show ?thesis
    by (metis take_bit_nat_less_exp)
qed

lemma unpack:
  fixes a b c :: nat
  assumes "a < 256" "b < 256" "c < 256"
  shows "drop_bit 16 (push_bit 16 a OR push_bit 8 b OR c) mod 256 = a"
    and "drop_bit 8 (push_bit 16 a OR push_bit 8 b OR c) mod 256 = b"
    and "(push_bit 16 a OR push_bit 8 b OR c) mod 256 = c"
proof -
  have t: "take_bit 8 a = a" "take_bit 8 b = b" "take_bit 8 c = c"
    using assms by (simp_all add: take_bit_nat_eq_self)
  then have ba: "\<And>m. bit a m \<Longrightarrow> m < 8" and bb: "\<And>m. bit b m \<Longrightarrow> m < 8" and bc: "\<And>m. bit c m \<Longrightarrow> m < 8"
    by (metis bit_take_bit_iff)+
  have "take_bit 8 (drop_bit 16 (push_bit 16 a OR push_bit 8 b OR c)) = a"
    by (rule bit_eqI) (auto simp add: bit_simps dest: ba bb bc)
  then show "drop_bit 16 (push_bit 16 a OR push_bit 8 b OR c) mod 256 = a"
    by (simp add: take_bit_eq_mod)
  have "take_bit 8 (drop_bit 8 (push_bit 16 a OR push_bit 8 b OR c)) = b"
    by (rule bit_eqI) (auto simp add: bit_simps dest: ba bb bc)
  then show "drop_bit 8 (push_bit 16 a OR push_bit 8 b OR c) mod 256 = b"
    by (simp add: take_bit_eq_mod)
  have "take_bit 8 (push_bit 16 a OR push_bit 8 b OR c) = c"
    by (rule bit_eqI) (auto simp add: bit_simps dest: ba bb bc)
  then show "(push_bit 16 a OR push_bit 8 b OR c) mod 256 = c"
    by (simp add: take_bit_eq_mod)
qed

lemma decodeMap_pad: "decodeMap (CHR ''='') = None"
  by code_simp

lemma bits_lt:
  fixes val :: nat
  assumes "val < 2 ^ k"
  shows "bit val n \<Longrightarrow> n < k"
proof -
  have "take_bit k val = val" using assms by (simp add: take_bit_nat_eq_self)
  then show "bit val n \<Longrightarrow> n < k"
    by (metis bit_take_bit_iff)
qed

lemma regroup3:
  fixes val :: nat
  assumes "val < 2 ^ 24"
  shows "drop_bit 8 (push_bit 18 (drop_bit 18 val AND 0x3F) OR push_bit 12 (drop_bit 12 val AND 0x3F)
          OR push_bit 6 (drop_bit 6 val AND 0x3F) OR 0) = drop_bit 8 val"
proof (rule bit_eqI)
  fix n :: nat
  note b = bits_lt [OF assms]
  consider "n + 8 < 12" | "12 \<le> n + 8" "n + 8 < 18" | "18 \<le> n + 8" "n + 8 < 24" | "24 \<le> n + 8"
    by linarith
  then show "bit (drop_bit 8 (push_bit 18 (drop_bit 18 val AND 0x3F) OR push_bit 12 (drop_bit 12 val AND 0x3F)
          OR push_bit 6 (drop_bit 6 val AND 0x3F) OR 0)) n = bit (drop_bit 8 val) n"
    unfolding m63 using b [of "8 + n"] by cases (auto simp add: bit_simps)
qed

lemma regroup2:
  fixes val :: nat
  assumes "val < 2 ^ 24"
  shows "drop_bit 16 (push_bit 18 (drop_bit 18 val AND 0x3F) OR push_bit 12 (drop_bit 12 val AND 0x3F)
          OR push_bit 6 0 OR 0) = drop_bit 16 val"
proof (rule bit_eqI)
  fix n :: nat
  note b = bits_lt [OF assms]
  consider "n + 16 < 18" | "18 \<le> n + 16" "n + 16 < 24" | "24 \<le> n + 16"
    by linarith
  then show "bit (drop_bit 16 (push_bit 18 (drop_bit 18 val AND 0x3F) OR push_bit 12 (drop_bit 12 val AND 0x3F)
          OR push_bit 6 0 OR 0)) n = bit (drop_bit 16 val) n"
    unfolding m63 using b [of "16 + n"] by cases (auto simp add: bit_simps)
qed

lemma char_of_byte: "(n::nat) mod 256 = of_char c \<Longrightarrow> char_of n = c"
  by (metis char_of_char char_of_mod_256)

lemma qb4:
  "quantum_bytes [d0, d1, d2, d3] =
     [char_of (drop_bit 16 (push_bit 18 d0 OR push_bit 12 d1 OR push_bit 6 d2 OR d3)),
      char_of (drop_bit 8 (push_bit 18 d0 OR push_bit 12 d1 OR push_bit 6 d2 OR d3)),
      char_of (push_bit 18 d0 OR push_bit 12 d1 OR push_bit 6 d2 OR d3)]"
  by (simp add: quantum_bytes_def)

lemma qb3:
  "quantum_bytes [d0, d1, d2] =
     [char_of (drop_bit 8 (drop_bit 8 (push_bit 18 d0 OR push_bit 12 d1 OR push_bit 6 d2 OR 0))),
      char_of (drop_bit 8 (push_bit 18 d0 OR push_bit 12 d1 OR push_bit 6 d2 OR 0))]"
  by (simp add: quantum_bytes_def drop_bit_drop_bit)

lemma qb2:
  "quantum_bytes [d0, d1] =
     [char_of (drop_bit 16 (push_bit 18 d0 OR push_bit 12 d1 OR push_bit 6 0 OR 0))]"
  by (simp add: quantum_bytes_def)

lemma quantum4:
  fixes a b c :: char
  defines "val \<equiv> push_bit 16 (of_char a :: nat) OR push_bit 8 (of_char b) OR of_char c"
  shows "quantum_bytes [drop_bit 18 val AND 0x3F, drop_bit 12 val AND 0x3F,
                        drop_bit 6 val AND 0x3F, val AND 0x3F] = [a, b, c]"
proof -
  have lt: "val < 2 ^ 24"
    unfolding val_def by (rule pack_lt) (rule of_char_lt)+
  have u: "drop_bit 16 val mod 256 = of_char a" "drop_bit 8 val mod 256 = of_char b" "val mod 256 = of_char c"
    unfolding val_def by (rule unpack; rule of_char_lt)+
  show ?thesis
    by (simp only: qb4 regroup [OF lt] char_of_byte [OF u(1)] char_of_byte [OF u(2)] char_of_byte [OF u(3)])
qed

lemma quantum3:
  fixes a b :: char
  defines "val \<equiv> push_bit 16 (of_char a :: nat) OR push_bit 8 (of_char b)"
  shows "quantum_bytes [drop_bit 18 val AND 0x3F, drop_bit 12 val AND 0x3F,
                        drop_bit 6 val AND 0x3F] = [a, b]"
proof -
  have v: "val = push_bit 16 (of_char a :: nat) OR push_bit 8 (of_char b) OR 0"
    by (simp add: val_def)
  have lt: "val < 2 ^ 24"
    unfolding v by (rule pack_lt) (simp_all add: of_char_lt)
  have u: "drop_bit 16 val mod 256 = of_char a" "drop_bit 8 val mod 256 = of_char b"
    unfolding v by (rule unpack; simp add: of_char_lt)+
  have d16: "drop_bit 8 (drop_bit 8 val) = drop_bit 16 val"
    by (simp add: drop_bit_drop_bit)
  show ?thesis
    by (simp only: qb3 regroup3 [OF lt] d16 char_of_byte [OF u(1)] char_of_byte [OF u(2)])
qed

lemma quantum2:
  fixes a :: char
  defines "val \<equiv> push_bit 16 (of_char a :: nat)"
  shows "quantum_bytes [drop_bit 18 val AND 0x3F, drop_bit 12 val AND 0x3F] = [a]"
proof -
  have v: "val = push_bit 16 (of_char a :: nat) OR push_bit 8 0 OR 0"
    by (simp add: val_def)
  have lt: "val < 2 ^ 24"
    unfolding v by (rule pack_lt) (simp_all add: of_char_lt)
  have u: "drop_bit 16 val mod 256 = of_char a"
    unfolding v by (rule unpack; simp add: of_char_lt)+
  show ?thesis
    by (simp only: qb2 regroup2 [OF lt] char_of_byte [OF u(1)])
qed

lemma dec4:
  assumes "s0 < 64" "s1 < 64" "s2 < 64" "s3 < 64"
  shows "decode [] si (encode s0 # encode s1 # encode s2 # encode s3 # src) =
           (case decode [] (Suc (Suc (Suc (Suc si)))) src of
              Inl e \<Rightarrow> Inl e
            | Inr r \<Rightarrow> Inr (quantum_bytes [s0, s1, s2, s3] @ r))"
  using assms by (simp add: decodeMap_encode split: sum.splits)

lemma dec3:
  assumes "s0 < 64" "s1 < 64" "s2 < 64"
  shows "decode [] si [encode s0, encode s1, encode s2, CHR ''=''] = Inr (quantum_bytes [s0, s1, s2])"
  using assms by (simp add: decodeMap_encode decodeMap_pad padding_def)

lemma dec2:
  assumes "s0 < 64" "s1 < 64"
  shows "decode [] si [encode s0, encode s1, CHR ''='', CHR ''=''] = Inr (quantum_bytes [s0, s1])"
  using assms by (simp add: decodeMap_encode decodeMap_pad padding_def)

lemma decode_EncodeToString: "decode [] si (EncodeToString v) = Inr v"
proof (induction v arbitrary: si rule: EncodeToString.induct)
  case 1
  show ?case by simp
next
  case (2 a)
  show ?case
    by (simp only: EncodeToString.simps Let_def dec2 sextet_lt quantum2)
next
  case (3 a b)
  show ?case
    by (simp only: EncodeToString.simps Let_def dec3 sextet_lt quantum3)
next
  case (4 a b c src)
  show ?case
    by (simp only: EncodeToString.simps Let_def append.simps dec4 sextet_lt quantum4 "4.IH" sum.case)
qed

text \<open>
  Claim C3. \<^verbatim>\<open>StoreInProject\<close> puts \<open>EncodeToString value\<close> into the body of the
  request that adds a version, and \<^verbatim>\<open>FetchFromProject\<close> returns what \<open>DecodeString\<close>
  makes of the field \<^verbatim>\<open>data\<close> of the payload. For every string, that is for every
  sequence of bytes, decoding the encoding succeeds and gives the string back.
\<close>

theorem base64_roundtrip: "DecodeString (EncodeToString val) = Inr val"
  unfolding DecodeString_def by (rule decode_EncodeToString)

section \<open>Properties of the package\<close>

subsection \<open>Runs of the loops\<close>

lemma attempts: "[0..<maxRetries] = [0, 1, 2]"
  by (simp add: maxRetries_def upt_rec)

lemma itoa_409: "itoa 409 = ''409''"
  by code_simp

lemma stops_at_nth:
  "stops_at v evs r \<Longrightarrow> i < length evs \<Longrightarrow> v (evs ! i) = Some x \<Longrightarrow> Suc i = length evs \<and> r = x"
proof (induction evs arbitrary: i)
  case Nil
  then show ?case by simp
next
  case (Cons ev evs)
  show ?case
  proof (cases i)
    case 0
    with Cons.prems show ?thesis by simp
  next
    case (Suc j)
    with Cons.prems have "v ev = None"
      by (cases "v ev") auto
    with Cons.prems Suc Cons.IH [of j] show ?thesis by simp
  qed
qed

lemma stops_at_sub:
  assumes "stops_at v evs r"
    and "\<And>ev x. v' ev = Some x \<Longrightarrow> \<exists>y. v ev = Some y \<and> f y = x"
  shows "stops_at v' evs (f r)"
  using assms(1)
proof (induction evs)
  case Nil
  show ?case by simp
next
  case (Cons ev evs)
  show ?case
  proof (cases "v' ev")
    case None
    with Cons show ?thesis
      by (cases "v ev") auto
  next
    case (Some x)
    with assms(2) obtain y where "v ev = Some y" "f y = x" by blast
    with Cons.prems Some show ?thesis by simp
  qed
qed

lemma stops_at_silent:
  assumes "stops_at v evs r" and "\<And>ev x. v ev = Some x \<Longrightarrow> x \<noteq> r"
  shows "list_all (\<lambda>ev. v ev = None) evs"
  using assms(1)
proof (induction evs)
  case Nil
  show ?case by simp
next
  case (Cons ev evs)
  with assms(2) [of ev] show ?case
    by (cases "v ev") auto
qed

lemma stops_at_append:
  "list_all (\<lambda>ev. v ev = None) evs1 \<Longrightarrow> stops_at v (evs1 @ evs2) r = stops_at v evs2 r"
  by (induction evs1) auto

lemma run_ok_done: "run_ok v P tr (r, tr)"
  by (simp add: run_ok_def)

lemma run_ok_last: "P ev \<Longrightarrow> v ev = None \<or> v ev = Some r \<Longrightarrow> run_ok v P tr (r, tr @ [ev])"
  by (auto simp: run_ok_def)

lemma run_ok_step: "P ev \<Longrightarrow> v ev = None \<Longrightarrow> run_ok v P (tr @ [ev]) R \<Longrightarrow> run_ok v P tr R"
  by (auto simp: run_ok_def)

lemma run_ok_wait:
  assumes "wait env attempt tr = (d, tr1)"
    and "P (Select d)"
    and "\<And>e. d = Some e \<Longrightarrow> R = (r e, tr1) \<and> v (Select (Some e)) = Some (r e)"
    and "d = None \<Longrightarrow> v (Select None) = None \<and> run_ok v P tr1 R"
  shows "run_ok v P tr R"
proof (cases d)
  case None
  with assms show ?thesis
    by (auto simp: wait_def split: if_splits intro: run_ok_step)
next
  case (Some e)
  with assms(1) have "tr1 = tr @ [Select (Some e)]"
    by (auto simp: wait_def split: if_splits)
  with assms Some show ?thesis
    by (auto intro: run_ok_last)
qed

lemma loop_run_ok:
  assumes base: "\<And>st tr. \<exists>r. L [] st tr = (r, tr)"
    and step: "\<And>attempt rest st tr. step_ok env v mk q (L rest) attempt tr (L (attempt # rest) st tr)"
    and v: "v (Select None) = None" "\<And>e. v (Select (Some e)) = Some (mk e)"
    and P: "\<And>d. P (Select d)" "\<And>res. P (Roundtrip q res)"
  shows "run_ok v P tr (L atts st tr)"
proof (induction atts arbitrary: st tr)
  case Nil
  from base [of st tr] show ?case by (auto simp: run_ok_done)
next
  case (Cons attempt rest)
  obtain d tr1 where w: "wait env attempt tr = (d, tr1)"
    by (cases "wait env attempt tr")
  show ?case
  proof (rule run_ok_wait [OF w])
    show "P (Select d)" by (rule P)
  next
    fix e assume "d = Some e"
    with w step [of rest attempt tr st] v
    show "L (attempt # rest) st tr = (mk e, tr1) \<and> v (Select (Some e)) = Some (mk e)"
      by (simp add: step_ok_def)
  next
    assume d: "d = None"
    let ?ev = "Roundtrip q (Do env tr1 q)"
    from w d step [of rest attempt tr st]
    consider (stop) r where "L (attempt # rest) st tr = (r, tr1 @ [?ev])" "v ?ev = None \<or> v ?ev = Some r"
      | (go) st' where "L (attempt # rest) st tr = L rest st' (tr1 @ [?ev])" "v ?ev = None"
      by (auto simp: step_ok_def)
    then have "run_ok v P tr1 (L (attempt # rest) st tr)"
    proof cases
      case stop
      show ?thesis
        unfolding stop(1) using stop(2) P by (intro run_ok_last) auto
    next
      case go
      show ?thesis
        unfolding go(1) by (rule run_ok_step [where ev = ?ev]) (use go(2) P Cons.IH in simp_all)
    qed
    with v show "v (Select None) = None \<and> run_ok v P tr1 (L (attempt # rest) st tr)"
      by simp
  qed
qed

lemma getProjectID_loop_run:
  "run_ok (cancelled Inl) (sends (metadata_get (metadataURL env @ ''/project/project-id''))) tr
     (getProjectID_loop env atts lastErr tr)"
proof (rule loop_run_ok [where L = "getProjectID_loop env" and env = env and mk = "\<lambda>e. Inl (CtxErr e)"
                           and q = "metadata_get (metadataURL env @ ''/project/project-id'')"])
  fix attempt rest st tr
  show "step_ok env (cancelled Inl) (\<lambda>e. Inl (CtxErr e)) (metadata_get (metadataURL env @ ''/project/project-id''))
          (getProjectID_loop env rest) attempt tr (getProjectID_loop env (attempt # rest) st tr)"
    by (auto simp: step_ok_def send_def split: prod.splits option.splits http_result.splits)
qed simp_all

lemma getAccessToken_loop_run:
  "run_ok (cancelled Inl) (sends (metadata_get (metadataURL env @ ''/instance/service-accounts/default/token''))) tr
     (getAccessToken_loop env atts lastErr tr)"
proof (rule loop_run_ok [where L = "getAccessToken_loop env" and env = env and mk = "\<lambda>e. Inl (CtxErr e)"
                           and q = "metadata_get (metadataURL env @ ''/instance/service-accounts/default/token'')"])
  fix attempt rest st tr
  show "step_ok env (cancelled Inl) (\<lambda>e. Inl (CtxErr e))
          (metadata_get (metadataURL env @ ''/instance/service-accounts/default/token''))
          (getAccessToken_loop env rest) attempt tr (getAccessToken_loop env (attempt # rest) st tr)"
    by (auto simp: step_ok_def send_def split: prod.splits option.splits http_result.splits sum.splits)
qed simp_all

lemma FetchFromProject_loop_run:
  "run_ok access_verdict (sends (bearer_get url t)) tr (FetchFromProject_loop env url t atts lastErr tr)"
proof (rule loop_run_ok [where L = "FetchFromProject_loop env url t" and env = env
                           and mk = "\<lambda>e. Inl (CtxErr e)" and q = "bearer_get url t"])
  fix attempt rest st tr
  show "step_ok env access_verdict (\<lambda>e. Inl (CtxErr e)) (bearer_get url t)
          (FetchFromProject_loop env url t rest) attempt tr (FetchFromProject_loop env url t (attempt # rest) st tr)"
    by (auto simp: step_ok_def send_def split: prod.splits option.splits http_result.splits sum.splits)
qed simp_all

lemma create_loop_run:
  "run_ok create_verdict (sends (post url data tok)) tr (create_loop env url data tok atts createErr tr)"
proof (rule loop_run_ok [where L = "create_loop env url data tok" and env = env
                           and mk = "\<lambda>e. Inl (CtxErr e)" and q = "post url data tok"])
  fix attempt rest st tr
  show "step_ok env create_verdict (\<lambda>e. Inl (CtxErr e)) (post url data tok)
          (create_loop env url data tok rest) attempt tr (create_loop env url data tok (attempt # rest) st tr)"
    by (auto simp: step_ok_def send_def itoa_409 ReadAll_def split: prod.splits option.splits http_result.splits)
qed simp_all

lemma addVersion_loop_run:
  "run_ok addVersion_verdict (sends (post url data tok)) tr (addVersion_loop env url data tok atts lastErr tr)"
proof (rule loop_run_ok [where L = "addVersion_loop env url data tok" and env = env
                           and mk = "\<lambda>e. Some (CtxErr e)" and q = "post url data tok"])
  fix attempt rest st tr
  show "step_ok env addVersion_verdict (\<lambda>e. Some (CtxErr e)) (post url data tok)
          (addVersion_loop env url data tok rest) attempt tr (addVersion_loop env url data tok (attempt # rest) st tr)"
    by (auto simp: step_ok_def send_def ReadAll_def split: prod.splits option.splits http_result.splits)
qed simp_all

subsection \<open>Runs against a scripted environment\<close>

lemma Do_scripted:
  "Do (scripted rs ds) tr req =
     (case drop (requests tr) rs of [] \<Rightarrow> DoError ''connection refused'' | r # _ \<Rightarrow> r)"
  by (simp add: scripted_def)

lemma Done_scripted:
  "Done (scripted rs ds) tr = (case drop (waits tr) ds of [] \<Rightarrow> None | d # _ \<Rightarrow> d)"
  by (simp add: scripted_def)

lemma URL_scripted:
  "metadataURL (scripted rs ds) = ''http://metadata.google.internal/computeMetadata/v1''"
  "apiURL (scripted rs ds) = ''https://secretmanager.googleapis.com/v1''"
  by (simp_all add: scripted_def)

lemma requests_simps:
  "requests [] = 0"
  "requests (Roundtrip q r # tr) = Suc (requests tr)"
  "requests (Select d # tr) = requests tr"
  "requests (tr @ tr') = requests tr + requests tr'"
  by (simp_all add: requests_def)

lemma waits_simps:
  "waits [] = 0"
  "waits (Roundtrip q r # tr) = waits tr"
  "waits (Select d # tr) = Suc (waits tr)"
  "waits (tr @ tr') = waits tr + waits tr'"
  by (simp_all add: waits_def)

lemmas script =
  wait_def send_def Do_scripted Done_scripted URL_scripted requests_simps waits_simps

lemma short_body: "length b < 10485760 \<Longrightarrow> LimitReader (b, e) maxBodySize = (b, e)"
  by (simp add: LimitReader_def maxBodySize_def)

lemma valid_pid: "MatchString projectIDRegex ''test-project''"
  by code_simp

lemma valid_name: "MatchString secretNameRegex ''test-secret''"
  by code_simp

lemma token_parse:
  \<open>Decode token_of_json (''{"access_token":"test-token"}'', None) = Inr ''test-token''\<close>
  by code_simp

lemma token_decode:
  \<open>Decode token_of_json (LimitReader (''{"access_token":"test-token"}'', None) maxBodySize) = Inr ''test-token''\<close>
  by (simp add: short_body token_parse)

lemma itoa_values:
  "itoa 403 = ''403''" "itoa 404 = ''404''" "itoa 500 = ''500''" "itoa 503 = ''503''"
  by code_simp+

lemma getAccessToken_scripted:
  "getAccessToken (scripted (tokenOK # rs) ds) [] =
     (Inr ''test-token'',
      [Roundtrip (metadata_get ''http://metadata.google.internal/computeMetadata/v1/instance/service-accounts/default/token'')
         tokenOK])"
  unfolding getAccessToken_def attempts
  by (simp add: script tokenOK_def token_decode)

subsection \<open>Cancellation\<close>

lemma run_ok_weaken:
  assumes "run_ok v P tr R"
    and "\<And>ev x. v' ev = Some x \<Longrightarrow> \<exists>y. v ev = Some y \<and> f y = x"
  shows "run_ok v' (\<lambda>ev. True) tr (f (fst R), snd R)"
proof -
  from assms(1) obtain evs where "snd R = tr @ evs" "stops_at v evs (fst R)"
    by (auto simp: run_ok_def)
  with stops_at_sub [of v evs "fst R" v' f] assms(2) show ?thesis
    by (auto simp: run_ok_def list_all_iff)
qed

lemma run_ok_seq:
  assumes "run_ok v P tr (r1, tr1)"
    and "\<And>ev x. v ev = Some x \<Longrightarrow> x \<noteq> r1"
    and "run_ok v P tr1 R"
  shows "run_ok v P tr R"
proof -
  from assms(1) obtain evs1 where 1: "tr1 = tr @ evs1" "stops_at v evs1 r1" "list_all P evs1"
    by (auto simp: run_ok_def)
  from assms(3) obtain evs2 where 2: "snd R = tr1 @ evs2" "stops_at v evs2 (fst R)" "list_all P evs2"
    by (auto simp: run_ok_def)
  from 1(2) assms(2) have "list_all (\<lambda>ev. v ev = None) evs1"
    by (rule stops_at_silent)
  with 1 2 show ?thesis
    by (auto simp: run_ok_def stops_at_append intro!: exI [of _ "evs1 @ evs2"])
qed

lemma cancelled_sub:
  "cancelled Some ev = Some x \<Longrightarrow> \<exists>y. cancelled Inl ev = Some y \<and> err_of y = x"
  by (cases "(Some :: error \<Rightarrow> error option, ev)" rule: cancelled.cases) (auto simp: err_of_def)

lemma access_sub:
  "cancelled Some ev = Some x \<Longrightarrow> \<exists>y. access_verdict ev = Some y \<and> err_of y = x"
  by (cases "(Some :: error \<Rightarrow> error option, ev)" rule: cancelled.cases) (auto simp: err_of_def)

lemma create_sub:
  "cancelled Some ev = Some x \<Longrightarrow> \<exists>y. create_verdict ev = Some y \<and> err_of y = x"
  by (cases "(Some :: error \<Rightarrow> error option, ev)" rule: cancelled.cases) (auto simp: err_of_def)

lemma addVersion_sub:
  "cancelled Some ev = Some x \<Longrightarrow> \<exists>y. addVersion_verdict ev = Some y \<and> id y = x"
  by (cases "(Some :: error \<Rightarrow> error option, ev)" rule: cancelled.cases) auto

lemma cancelled_not_nil: "cancelled Some ev = Some x \<Longrightarrow> x \<noteq> None"
  by (cases "(Some :: error \<Rightarrow> error option, ev)" rule: cancelled.cases) auto

lemma quiet_done: "quiet tr (r, tr)"
  by (simp add: quiet_def run_ok_done)

lemma quiet_seq: "quiet tr (None, tr1) \<Longrightarrow> quiet tr1 R \<Longrightarrow> quiet tr R"
  unfolding quiet_def by (erule run_ok_seq) (auto dest: cancelled_not_nil)

lemma getProjectID_quiet: "quiet tr (err_of (fst (getProjectID env tr)), snd (getProjectID env tr))"
  unfolding quiet_def getProjectID_def
  by (rule run_ok_weaken [OF getProjectID_loop_run]) (rule cancelled_sub)

lemma getAccessToken_quiet: "quiet tr (err_of (fst (getAccessToken env tr)), snd (getAccessToken env tr))"
  unfolding quiet_def getAccessToken_def
  by (rule run_ok_weaken [OF getAccessToken_loop_run]) (rule cancelled_sub)

lemma FetchFromProject_loop_quiet:
  "quiet tr (err_of (fst (FetchFromProject_loop env url t atts lastErr tr)),
             snd (FetchFromProject_loop env url t atts lastErr tr))"
  unfolding quiet_def
  by (rule run_ok_weaken [OF FetchFromProject_loop_run]) (rule access_sub)

lemma create_loop_quiet:
  "quiet tr (err_of (fst (create_loop env url data tok atts createErr tr)),
             snd (create_loop env url data tok atts createErr tr))"
  unfolding quiet_def
  by (rule run_ok_weaken [OF create_loop_run]) (rule create_sub)

lemma addVersion_quiet: "quiet tr (addVersion env pid name val tok tr)"
  using run_ok_weaken [OF addVersion_loop_run, where f = id and v' = "cancelled Some", OF addVersion_sub]
  unfolding quiet_def addVersion_def by simp

lemma FetchFromProject_quiet:
  "quiet tr (err_of (fst (FetchFromProject env pid name tr)), snd (FetchFromProject env pid name tr))"
proof -
  obtain x tr1 where tok: "getAccessToken env tr = (x, tr1)"
    by (cases "getAccessToken env tr")
  with getAccessToken_quiet [of tr env] have q1: "quiet tr (err_of x, tr1)" by simp
  show ?thesis
  proof (cases x)
    case (Inl err)
    with tok q1 show ?thesis
      by (simp add: FetchFromProject_def quiet_done err_of_def)
  next
    case (Inr t)
    with q1 have "quiet tr (None, tr1)" by (simp add: err_of_def)
    from quiet_seq [OF this FetchFromProject_loop_quiet] tok Inr show ?thesis
      by (simp add: FetchFromProject_def quiet_done err_of_def)
  qed
qed

lemma Fetch_quiet: "quiet tr (err_of (fst (Fetch env name tr)), snd (Fetch env name tr))"
proof -
  obtain x tr1 where p: "getProjectID env tr = (x, tr1)"
    by (cases "getProjectID env tr")
  with getProjectID_quiet [of tr env] have q1: "quiet tr (err_of x, tr1)" by simp
  show ?thesis
  proof (cases x)
    case (Inl err)
    with p q1 show ?thesis
      by (simp add: Fetch_def quiet_done err_of_def)
  next
    case (Inr pid)
    with q1 have "quiet tr (None, tr1)" by (simp add: err_of_def)
    from quiet_seq [OF this FetchFromProject_quiet] p Inr show ?thesis
      by (simp add: Fetch_def quiet_done err_of_def)
  qed
qed

lemma StoreInProject_quiet: "quiet tr (StoreInProject_with b env pid name val tr)"
proof -
  obtain x tr1 where tok: "getAccessToken env tr = (x, tr1)"
    by (cases "getAccessToken env tr")
  with getAccessToken_quiet [of tr env] have q1: "quiet tr (err_of x, tr1)" by simp
  show ?thesis
  proof (cases x)
    case (Inl err)
    with tok q1 show ?thesis
      by (simp add: StoreInProject_with_def quiet_done err_of_def)
  next
    case (Inr t)
    with q1 have q1': "quiet tr (None, tr1)" by (simp add: err_of_def)
    obtain y tr2 where c: "create_loop env (createURL env pid name) (Marshal b) t [0..<maxRetries] None tr1 = (y, tr2)"
      by (cases "create_loop env (createURL env pid name) (Marshal b) t [0..<maxRetries] None tr1")
    with create_loop_quiet [of tr1 env "createURL env pid name" "Marshal b" t "[0..<maxRetries]" None]
    have q2: "quiet tr1 (err_of y, tr2)" by simp
    show ?thesis
    proof (cases y)
      case (Inl err)
      with q2 have "quiet tr1 (Some err, tr2)" by (simp add: err_of_def)
      from quiet_seq [OF q1' this] tok Inr c Inl show ?thesis
        by (simp add: StoreInProject_with_def quiet_done)
    next
      case (Inr createErr)
      with q2 have "quiet tr1 (None, tr2)" by (simp add: err_of_def)
      from quiet_seq [OF q1' this] have q12: "quiet tr (None, tr2)" .
      have "quiet tr2 (r, tr2)" for r by (rule quiet_done)
      from quiet_seq [OF q12 this] quiet_seq [OF q12 addVersion_quiet [of tr2 env pid name val t]]
        tok \<open>x = Inr t\<close> c Inr show ?thesis
        by (simp add: StoreInProject_with_def quiet_done split: option.splits)
    qed
  qed
qed

lemma Store_quiet: "quiet tr (Store_with b env name val tr)"
proof -
  obtain x tr1 where p: "getProjectID env tr = (x, tr1)"
    by (cases "getProjectID env tr")
  with getProjectID_quiet [of tr env] have q1: "quiet tr (err_of x, tr1)" by simp
  show ?thesis
  proof (cases x)
    case (Inl err)
    with p q1 show ?thesis
      by (simp add: Store_with_def quiet_done err_of_def)
  next
    case (Inr pid)
    with q1 have "quiet tr (None, tr1)" by (simp add: err_of_def)
    from quiet_seq [OF this StoreInProject_quiet] p Inr show ?thesis
      by (simp add: Store_with_def quiet_done)
  qed
qed

lemma quiet_final: "quiet tr R \<Longrightarrow> cancellation_final tr R"
proof -
  assume "quiet tr R"
  then obtain evs where e: "snd R = tr @ evs" "stops_at (cancelled Some) evs (fst R)"
    by (auto simp: quiet_def run_ok_def)
  have "Suc i = length evs \<and> fst R = Some (CtxErr c)" if "i < length evs" "evs ! i = Select (Some c)" for i c
    using stops_at_nth [OF e(2) that(1), of "Some (CtxErr c)"] that(2) by simp
  with e(1) show ?thesis
    unfolding cancellation_final_def by blast
qed

text \<open>
  Claim C4. In every exported operation, a wait between two attempts that the context
  ends is the last event of the operation: no request follows it. The operation
  returns the error of the context itself, whatever error the attempts before had left
  in \<^verbatim>\<open>lastErr\<close>. This holds for both revisions of the two store operations.
\<close>

theorem cancellation_aborts:
  "cancellation_final tr (err_of (fst (Fetch env name tr)), snd (Fetch env name tr))
   \<and> cancellation_final tr (err_of (fst (FetchFromProject env pid name tr)), snd (FetchFromProject env pid name tr))
   \<and> cancellation_final tr (Store_with b env name val tr)
   \<and> cancellation_final tr (StoreInProject_with b env pid name val tr)"
  by (intro conjI quiet_final Fetch_quiet FetchFromProject_quiet Store_quiet StoreInProject_quiet)

lemma deadline_run:
  "FetchFromProject deadline_env ''test-project'' ''test-secret'' []
     = (Inl (CtxErr DeadlineExceeded),
        [Roundtrip (metadata_get ''http://metadata.google.internal/computeMetadata/v1/instance/service-accounts/default/token'')
           tokenOK,
         Roundtrip (bearer_get ''https://secretmanager.googleapis.com/v1/projects/test-project/secrets/test-secret/versions/latest:access''
                      ''test-token'')
           (Response 500 [] None),
         Select (Some DeadlineExceeded)])"
  unfolding FetchFromProject_def attempts deadline_env_def
  by (simp add: valid_pid valid_name getAccessToken_scripted accessURL_def script)

theorem cancellation_aborts_witness:
  "snd (FetchFromProject deadline_env ''test-project'' ''test-secret'' []) ! 2 = Select (Some DeadlineExceeded)
   \<and> Suc 2 = length (snd (FetchFromProject deadline_env ''test-project'' ''test-secret'' []))
   \<and> err_of (fst (FetchFromProject deadline_env ''test-project'' ''test-secret'' [])) = Some (CtxErr DeadlineExceeded)"
proof -
  let ?R = "FetchFromProject deadline_env ''test-project'' ''test-secret'' []"
  from cancellation_aborts [where tr = "[]" and env = deadline_env and pid = "''test-project''"
                               and name = "''test-secret''"]
  have "cancellation_final [] (err_of (fst ?R), snd ?R)"
    by blast
  then have "\<forall>i e. i < length (snd ?R) \<and> snd ?R ! i = Select (Some e)
               \<longrightarrow> Suc i = length (snd ?R) \<and> err_of (fst ?R) = Some (CtxErr e)"
    by (simp add: cancellation_final_def)
  moreover have "2 < length (snd ?R)" "snd ?R ! 2 = Select (Some DeadlineExceeded)"
    by (simp_all add: deadline_run)
  ultimately show ?thesis by blast
qed

subsection \<open>Conflict on creation\<close>

lemma conflict_text:
  "strings_Contains (Error (Errorf ''secret already exists: status 409'')) ''secret already exists''"
  by simp

lemma Method_requests [simp]:
  "Method (metadata_get u) = ''GET''" "Method (bearer_get u t) = ''GET''" "Method (post u d t) = ''POST''"
  "URL (metadata_get u) = u" "URL (bearer_get u t) = u" "URL (post u d t) = u"
  "Body (post u d t) = d"
  by (simp_all add: metadata_get_def bearer_get_def post_def Header_Set_def NewRequest_def)

lemma createURL_versionURL: "createURL env pid name \<noteq> versionURL env pid name"
  by (simp add: createURL_def versionURL_def)

lemma getAccessToken_events:
  "\<exists>evs. snd (getAccessToken env tr) = tr @ evs
         \<and> list_all (sends (metadata_get (metadataURL env @ ''/instance/service-accounts/default/token''))) evs"
  using getAccessToken_loop_run [of env tr "[0..<maxRetries]" None]
  by (auto simp: run_ok_def getAccessToken_def)

lemma addVersion_first:
  "\<exists>evs. snd (addVersion env pid name val tok tr) =
           tr @ Roundtrip (post (versionURL env pid name) (versionData val) tok)
                  (Do env tr (post (versionURL env pid name) (versionData val) tok)) # evs
         \<and> list_all (sends (post (versionURL env pid name) (versionData val) tok)) evs"
proof -
  let ?q = "post (versionURL env pid name) (versionData val) tok"
  let ?tr1 = "tr @ [Roundtrip ?q (Do env tr ?q)]"
  have rest: "\<exists>evs. snd (addVersion_loop env (versionURL env pid name) (versionData val) tok atts le ?tr1)
                   = ?tr1 @ evs \<and> list_all (sends ?q) evs" for atts le
    using addVersion_loop_run [of "versionURL env pid name" "versionData val" tok ?tr1 env atts le]
    by (auto simp: run_ok_def)
  show ?thesis
  proof (cases "Do env tr ?q")
    case (DoError m)
    with rest [of "[1, 2]" "Some (TransportErr m)"] show ?thesis
      by (auto simp: addVersion_def attempts wait_def send_def)
  next
    case (Response st body berr)
    with rest [of "[1, 2]"] show ?thesis
      by (auto simp: addVersion_def attempts wait_def send_def)
  qed
qed

lemma sends_nth:
  "list_all (sends q) evs \<Longrightarrow> j < length evs \<Longrightarrow> evs ! j = Roundtrip q' res \<Longrightarrow> q' = q"
  by (metis list_all_length sends.simps(1))

lemma StoreInProject_run:
  assumes run: "StoreInProject_with b env pid name val tr = (r, tr')" and new: "tr' \<noteq> tr"
  obtains
    (token) evs1 where
      "tr' = tr @ evs1"
      "list_all (sends (metadata_get (metadataURL env @ ''/instance/service-accounts/default/token''))) evs1"
  | (create) tok evs1 evs2 y where
      "tr' = tr @ evs1 @ evs2"
      "list_all (sends (metadata_get (metadataURL env @ ''/instance/service-accounts/default/token''))) evs1"
      "list_all (sends (post (createURL env pid name) (Marshal b) tok)) evs2"
      "stops_at create_verdict evs2 y"
      "(\<exists>err. y = Inl err \<and> r = Some err) \<or>
       (\<exists>e. y = Inr (Some e) \<and> \<not> strings_Contains (Error e) ''secret already exists'')"
  | (version) tok evs1 evs2 y where
      "list_all (sends (metadata_get (metadataURL env @ ''/instance/service-accounts/default/token''))) evs1"
      "list_all (sends (post (createURL env pid name) (Marshal b) tok)) evs2"
      "stops_at create_verdict evs2 y"
      "y = Inr None \<or> (\<exists>e. y = Inr (Some e) \<and> strings_Contains (Error e) ''secret already exists'')"
      "addVersion env pid name val tok (tr @ evs1 @ evs2) = (r, tr')"
proof -
  let ?mq = "metadata_get (metadataURL env @ ''/instance/service-accounts/default/token'')"
  have valid: "MatchString projectIDRegex pid" "MatchString secretNameRegex name"
    using run new by (auto simp: StoreInProject_with_def split: if_splits)
  obtain x tr1 where tok: "getAccessToken env tr = (x, tr1)"
    by (cases "getAccessToken env tr")
  with getAccessToken_events [of env tr] obtain evs1 where
    evs1: "tr1 = tr @ evs1" "list_all (sends ?mq) evs1"
    by auto
  show thesis
  proof (cases x)
    case (Inl err)
    with run valid tok evs1 have "tr' = tr @ evs1"
      by (simp add: StoreInProject_with_def)
    with evs1(2) show thesis by (intro token [of evs1]) auto
  next
    case (Inr t)
    let ?cq = "post (createURL env pid name) (Marshal b) t"
    obtain y tr2 where c: "create_loop env (createURL env pid name) (Marshal b) t [0..<maxRetries] None tr1 = (y, tr2)"
      by (cases "create_loop env (createURL env pid name) (Marshal b) t [0..<maxRetries] None tr1")
    with create_loop_run [of "createURL env pid name" "Marshal b" t tr1 env "[0..<maxRetries]" None]
    obtain evs2 where evs2: "tr2 = tr1 @ evs2" "stops_at create_verdict evs2 y" "list_all (sends ?cq) evs2"
      by (auto simp: run_ok_def)
    from run valid tok Inr c have r:
      "(r, tr') = (case y of Inl err \<Rightarrow> (Some err, tr2)
                   | Inr createErr \<Rightarrow>
                       (case createErr of None \<Rightarrow> addVersion env pid name val t tr2
                        | Some e \<Rightarrow> if \<not> strings_Contains (Error e) ''secret already exists''
                                    then (Some (Wrap ''failed to create secret'' createErr), tr2)
                                    else addVersion env pid name val t tr2))"
      by (simp add: StoreInProject_with_def)
    consider (a) err where "y = Inl err"
      | (b) e where "y = Inr (Some e)" "\<not> strings_Contains (Error e) ''secret already exists''"
      | (c) "y = Inr None"
      | (d) e where "y = Inr (Some e)" "strings_Contains (Error e) ''secret already exists''"
      by (metis sum.exhaust option.exhaust)
    then show thesis
    proof cases
      case a
      with r evs1 evs2 show thesis
        by (intro create [of evs1 evs2 t y]) auto
    next
      case b
      with r evs1 evs2 show thesis
        by (intro create [of evs1 evs2 t y]) auto
    next
      case c
      with r evs1 evs2 show thesis
        by (intro version [of evs1 t evs2 y]) auto
    next
      case d
      with r evs1 evs2 show thesis
        by (intro version [of evs1 t evs2 y]) auto
    qed
  qed
qed

lemma create_event:
  assumes "stops_at create_verdict evs2 y" and "k < length evs2"
    and "evs2 ! k = Roundtrip q (Response st body berr)"
  shows "(st = 409 \<longrightarrow> Suc k = length evs2 \<and> y = Inr (Some (Errorf ''secret already exists: status 409'')))
       \<and> (400 \<le> st \<and> st < 500 \<and> st \<noteq> 409 \<longrightarrow>
            Suc k = length evs2 \<and>
            y = Inl (Errorf (''failed to create secret: status '' @ itoa st @ '': ''
                              @ fst (LimitReader (body, berr) maxBodySize))))"
  using stops_at_nth [OF assms(1,2)] assms(3) by simp

text \<open>
  Claim C2. Take any run of \<^verbatim>\<open>StoreInProject\<close> (either revision) and any event of the
  run that is a \<^verbatim>\<open>POST\<close> to the creation URL answered by a response. If the status is
  409, the next event is the request that adds the version, and the rest of the run,
  result included, is the add-version phase started right after the 409: the creation
  phase has returned no error. If the status is another one from 400 to 499, the event
  is the last of the run, which returns the creation error: the add-version phase does
  not run.
\<close>

theorem conflict_proceeds:
  assumes run: "StoreInProject_with b env pid name val tr = (r, tr')"
    and i: "length tr \<le> i" "i < length tr'"
    and ev: "tr' ! i = Roundtrip q (Response st body berr)"
    and q: "Method q = ''POST''" "URL q = createURL env pid name"
  shows "(st = 409 \<longrightarrow>
            Suc i < length tr' \<and>
            (\<exists>tok. tr' ! Suc i = Roundtrip (post (versionURL env pid name) (versionData val) tok)
                                   (Do env (take (Suc i) tr') (post (versionURL env pid name) (versionData val) tok))
                 \<and> addVersion env pid name val tok (take (Suc i) tr') = (r, tr')))
       \<and> (400 \<le> st \<and> st < 500 \<and> st \<noteq> 409 \<longrightarrow>
            Suc i = length tr' \<and>
            r = Some (Errorf (''failed to create secret: status '' @ itoa st @ '': ''
                               @ fst (LimitReader (body, berr) maxBodySize))))"
proof -
  let ?mq = "metadata_get (metadataURL env @ ''/instance/service-accounts/default/token'')"
  let ?ev = "Roundtrip q (Response st body berr)"
  from i have new: "tr' \<noteq> tr" by auto
  have no_meta: False if "list_all (sends ?mq) evs" "k < length evs" "evs ! k = ?ev" for evs k
    using sends_nth [OF that] q by simp
  have no_version: False if "list_all (sends (post (versionURL env pid name) d t)) evs" "k < length evs" "evs ! k = ?ev"
    for evs k d t
    using sends_nth [OF that] q createURL_versionURL [of env pid name] by simp
  have at: "j < length evs \<and> evs ! j = ?ev" if "tr' = tr @ evs" "j = i - length tr" for evs j
    using that i ev by (auto simp: nth_append)
  from run new show ?thesis
  proof (cases rule: StoreInProject_run)
    case (token evs1)
    from at [OF token(1) refl] no_meta [OF token(2)] show ?thesis
      by blast
  next
    case (create tok evs1 evs2 y)
    let ?j = "i - length tr"
    from at [of "evs1 @ evs2" ?j] create(1) have j: "?j < length (evs1 @ evs2)" "(evs1 @ evs2) ! ?j = ?ev"
      by simp_all
    have "\<not> ?j < length evs1"
      using no_meta [OF create(2), of ?j] j(2) by (auto simp: nth_append)
    with j have k: "?j - length evs1 < length evs2" "evs2 ! (?j - length evs1) = ?ev" "length evs1 \<le> ?j"
      by (auto simp: nth_append)
    from create_event [OF create(4) k(1,2)]
    have "st \<noteq> 409" and
      "400 \<le> st \<and> st < 500 \<and> st \<noteq> 409 \<longrightarrow> Suc (?j - length evs1) = length evs2
          \<and> r = Some (Errorf (''failed to create secret: status '' @ itoa st @ '': ''
                               @ fst (LimitReader (body, berr) maxBodySize)))"
      using create(5) by (auto simp: conflict_text)
    moreover have "Suc (?j - length evs1) = length evs2 \<Longrightarrow> Suc i = length tr'"
      using k(3) i(1) create(1) by simp
    ultimately show ?thesis by blast
  next
    case (version tok evs1 evs2 y)
    let ?j = "i - length tr"
    let ?vq = "post (versionURL env pid name) (versionData val) tok"
    let ?tr2 = "tr @ evs1 @ evs2"
    from addVersion_first [of env pid name val tok ?tr2] version(5)
    obtain evs3 where evs3: "tr' = ?tr2 @ Roundtrip ?vq (Do env ?tr2 ?vq) # evs3" "list_all (sends ?vq) evs3"
      by auto
    let ?evs3 = "Roundtrip ?vq (Do env ?tr2 ?vq) # evs3"
    have all3: "list_all (sends ?vq) ?evs3"
      using evs3(2) by simp
    from at [of "evs1 @ evs2 @ ?evs3" ?j] evs3(1)
    have j: "?j < length (evs1 @ evs2 @ ?evs3)" "(evs1 @ evs2 @ ?evs3) ! ?j = ?ev"
      by simp_all
    have 1: "\<not> ?j < length evs1"
      using no_meta [OF version(1), of ?j] j(2) by (auto simp: nth_append)
    have 2: "?j - length evs1 < length evs2"
    proof (rule ccontr)
      assume "\<not> ?j - length evs1 < length evs2"
      with 1 j have "?j - length evs1 - length evs2 < length ?evs3"
        "?evs3 ! (?j - length evs1 - length evs2) = ?ev"
        by (auto simp: nth_append)
      with no_version [OF all3] show False by blast
    qed
    with 1 j have k: "evs2 ! (?j - length evs1) = ?ev" "length evs1 \<le> ?j"
      by (auto simp: nth_append)
    from create_event [OF version(3) 2 k(1)] version(4)
    have st: "\<not> (400 \<le> st \<and> st < 500 \<and> st \<noteq> 409)"
      "st = 409 \<longrightarrow> Suc (?j - length evs1) = length evs2"
      by auto
    show ?thesis
    proof (cases "st = 409")
      case False
      with st show ?thesis by auto
    next
      case True
      with st(2) k(2) i(1) have len: "Suc i = length ?tr2" by simp
      then have "take (Suc i) tr' = ?tr2" "tr' ! Suc i = Roundtrip ?vq (Do env ?tr2 ?vq)" "Suc i < length tr'"
        using evs3(1) by (simp_all add: nth_append)
      with version(5) True show ?thesis
        by (auto intro!: exI [of _ tok])
    qed
  qed
qed

lemma conflict_run:
  "StoreInProject conflict_env ''test-project'' ''test-secret'' ''test-value'' []
     = (None,
        [Roundtrip (metadata_get ''http://metadata.google.internal/computeMetadata/v1/instance/service-accounts/default/token'')
           tokenOK,
         Roundtrip (post (createURL conflict_env ''test-project'' ''test-secret'') (Marshal createReqBody) ''test-token'')
           (Response 409 [] None),
         Roundtrip (post (versionURL conflict_env ''test-project'' ''test-secret'') (versionData ''test-value'') ''test-token'')
           (Response 200 ''{}'' None)])"
proof -
  have tok: "getAccessToken conflict_env [] =
     (Inr ''test-token'',
      [Roundtrip (metadata_get ''http://metadata.google.internal/computeMetadata/v1/instance/service-accounts/default/token'')
         tokenOK])"
    unfolding conflict_env_def by (rule getAccessToken_scripted)
  show ?thesis
    unfolding StoreInProject_def StoreInProject_with_def addVersion_def attempts
    by (simp add: valid_pid valid_name tok itoa_409) (simp add: conflict_env_def script)
qed

theorem conflict_proceeds_witness:
  "Suc 1 < length (snd (StoreInProject conflict_env ''test-project'' ''test-secret'' ''test-value'' []))
   \<and> (\<exists>tok. snd (StoreInProject conflict_env ''test-project'' ''test-secret'' ''test-value'' []) ! Suc 1 =
          Roundtrip (post (versionURL conflict_env ''test-project'' ''test-secret'') (versionData ''test-value'') tok)
            (Do conflict_env (take (Suc 1) (snd (StoreInProject conflict_env ''test-project'' ''test-secret'' ''test-value'' [])))
               (post (versionURL conflict_env ''test-project'' ''test-secret'') (versionData ''test-value'') tok))
        \<and> addVersion conflict_env ''test-project'' ''test-secret'' ''test-value'' tok
             (take (Suc 1) (snd (StoreInProject conflict_env ''test-project'' ''test-secret'' ''test-value'' [])))
           = StoreInProject conflict_env ''test-project'' ''test-secret'' ''test-value'' [])"
  using conflict_proceeds [where b = createReqBody and env = conflict_env and pid = "''test-project''"
      and name = "''test-secret''" and val = "''test-value''" and tr = "[]" and r = None
      and tr' = "snd (StoreInProject conflict_env ''test-project'' ''test-secret'' ''test-value'' [])" and i = 1
      and q = "post (createURL conflict_env ''test-project'' ''test-secret'') (Marshal createReqBody) ''test-token''"
      and st = 409 and body = "[]" and berr = None]
  by (simp add: conflict_run StoreInProject_def [symmetric])

end
